theory Spec2Isabelle
  imports Complex_Main
begin

section \<open>The portrait resize of \<open>scripts/clip.py\<close>\<close>

text \<open>
  The function \<open>resize_for_tiktok\<close> turns a landscape clip into a 9:16 portrait video.
  It tries four methods in turn: the external ClipsAI resize, a crop chosen from scene
  detection, face detection and saliency, a positional crop, and a fixed centred crop.

  Pixel weights and scores are NumPy \<open>float32\<close> values in the source. They are modelled
  as real numbers, so rounding is left out: sums and quotients are exact.
\<close>

subsection \<open>Scene list\<close>

text \<open>
  A scene of PySceneDetect is a pair of frame numbers. The source unpacks the pair inside
  a \<open>try\<close> whose handler replaces an entry it cannot read by the whole video.
\<close>

datatype scene = Scene nat nat | Unparsable

text \<open>
  Lines 451--454: no scene at all, or more than twenty, and the whole video is one scene.
\<close>

definition effective_scene_list :: "scene list \<Rightarrow> nat \<Rightarrow> scene list" where
  "effective_scene_list scene_list total_frames =
     (if length scene_list = 0 \<or> length scene_list > 20
      then [Scene 0 total_frames] else scene_list)"

subsection \<open>Crop window selection\<close>

text \<open>
  The heat map is a NumPy array of shape \<open>(height, width)\<close>: a list of rows.
\<close>

type_synonym heat_map = "real list list"

definition zeros :: "nat \<Rightarrow> nat \<Rightarrow> heat_map" where
  "zeros h w = replicate h (replicate w 0)"

definition heat_shape :: "nat \<Rightarrow> nat \<Rightarrow> heat_map \<Rightarrow> bool" where
  "heat_shape h w hm = (length hm = h \<and> list_all (\<lambda>row. length row = w) hm)"

definition heat_nonneg :: "heat_map \<Rightarrow> bool" where
  "heat_nonneg hm = list_all (list_all (\<lambda>v. 0 \<le> v)) hm"

text \<open>
  Lines 542--549. The source computes \<open>int(height * (9/16))\<close> and
  \<open>int(width * (16/9))\<close> in double precision. The factor \<open>9/16\<close> is a binary
  fraction, so the first product is exact. The double nearest to \<open>16/9\<close> lies below it
  by \<open>4/9\<close> of a unit in the last place, and the rounded product with an integer
  \<open>width\<close> truncates to the integer quotient for every width a video can have. Both
  are therefore written with integer division.
\<close>

definition target_dims :: "nat \<Rightarrow> nat \<Rightarrow> nat \<times> nat" where
  "target_dims width height =
     (let target_width = (height * 9) div 16 in
      if target_width > width
      then (width, (width * 16) div 9)
      else (target_width, height))"

text \<open>Python's \<open>range(start, stop, step)\<close> for a positive step.\<close>

function py_range :: "nat \<Rightarrow> nat \<Rightarrow> nat \<Rightarrow> nat list" where
  "py_range x stop step =
     (if step = 0 \<or> stop \<le> x then [] else x # py_range (x + step) stop step)"
  by pat_completeness auto
termination
  by (relation "measure (\<lambda>(x, stop, step). stop - x)") auto

declare py_range.simps [simp del]

text \<open>Line 556: the positions the loop visits.\<close>

definition candidates :: "nat \<Rightarrow> nat \<Rightarrow> nat list" where
  "candidates width target_width =
     py_range 0 (width - target_width + 1) (max 1 ((width - target_width) div 10))"

text \<open>
  Line 558: \<open>np.sum(avg_heat_map[:target_height, x:x+target_width])\<close>. A slice clips
  at the end of the array, as \<open>take\<close> and \<open>drop\<close> do.
\<close>

definition crop_score :: "heat_map \<Rightarrow> nat \<Rightarrow> nat \<Rightarrow> nat \<Rightarrow> real" where
  "crop_score hm target_height x target_width =
     sum_list (map (\<lambda>row. sum_list (take target_width (drop x row))) (take target_height hm))"

text \<open>Lines 552--562: the loop, with \<open>(best_score, best_x)\<close> as its state.\<close>

fun sliding_window :: "heat_map \<Rightarrow> nat \<Rightarrow> nat \<Rightarrow> nat list \<Rightarrow> real \<times> nat \<Rightarrow> real \<times> nat" where
  "sliding_window hm th tw [] (best_score, best_x) = (best_score, best_x)"
| "sliding_window hm th tw (x # xs) (best_score, best_x) =
     (if crop_score hm th x tw > best_score
      then sliding_window hm th tw xs (crop_score hm th x tw, x)
      else sliding_window hm th tw xs (best_score, best_x))"

text \<open>
  The window handed to the transcoder, line 587:
  \<open>crop={target_width}:{target_height}:{best_x}:0\<close>.
\<close>

record crop_window =
  cw_x :: nat
  cw_y :: nat
  cw_width :: nat
  cw_height :: nat

definition select_crop :: "heat_map \<Rightarrow> nat \<Rightarrow> nat \<Rightarrow> crop_window" where
  "select_crop hm width height =
     (let (target_width, target_height) = target_dims width height;
          (best_score, best_x) =
             sliding_window hm target_height target_width
               (candidates width target_width) (-1, 0)
      in \<lparr>cw_x = best_x, cw_y = 0, cw_width = target_width, cw_height = target_height\<rparr>)"

subsection \<open>Heat map aggregation\<close>

text \<open>
  An exception of the source is a value: \<open>ValueError\<close> is what NumPy raises when two
  arrays of different shapes are added, \<open>ExternalError\<close> stands for what a call into
  OpenCV, PySceneDetect, ClipsAI or the operating system raises.
\<close>

datatype exn = ValueError | ExternalError

text \<open>
  What the analysis of one key frame yields: the rectangles \<open>(x, y, w, h)\<close> of
  \<open>detectMultiScale\<close>, and the map of \<open>computeSaliency\<close>, absent when its
  \<open>success\<close> flag is false.
\<close>

type_synonym rect = "nat \<times> nat \<times> nat \<times> nat"

record frame_analysis =
  faces :: "rect list"
  saliency :: "real list list option"

definition face_weight :: real where
  "face_weight = 6 / 10"

definition salience_weight :: real where
  "salience_weight = 4 / 10"

text \<open>
  \<open>cv2.rectangle(img, pt1, pt2, color, -1)\<close> fills the rectangle whose opposite corners
  are \<open>pt1\<close> and \<open>pt2\<close>, both corners included, and leaves the pixels outside the
  image alone. A point is \<open>(column, row)\<close>.
\<close>

definition in_rectangle :: "nat \<times> nat \<Rightarrow> nat \<times> nat \<Rightarrow> nat \<Rightarrow> nat \<Rightarrow> bool" where
  "in_rectangle pt1 pt2 r c =
     (fst pt1 \<le> c \<and> c \<le> fst pt2 \<and> snd pt1 \<le> r \<and> r \<le> snd pt2)"

definition rectangle_filled :: "heat_map \<Rightarrow> nat \<times> nat \<Rightarrow> nat \<times> nat \<Rightarrow> real \<Rightarrow> heat_map" where
  "rectangle_filled img pt1 pt2 color =
     map (\<lambda>(r, row). map (\<lambda>(c, v). if in_rectangle pt1 pt2 r c then color else v)
                         (enumerate 0 row))
         (enumerate 0 img)"

text \<open>Lines 521--523: one filled rectangle per face, in the order of detection.\<close>

definition paint_faces :: "rect list \<Rightarrow> heat_map \<Rightarrow> heat_map" where
  "paint_faces fs img =
     fold (\<lambda>(x, y, w, h) m. rectangle_filled m (x, y) (x + w, y + h) face_weight) fs img"

text \<open>
  Line 529: \<open>(saliency_map * 255).astype("uint8")\<close>. The cast drops the fraction; a
  value outside the range of a byte wraps.
\<close>

definition uint8_of :: "real \<Rightarrow> real" where
  "uint8_of v = of_int (\<lfloor>v * 255\<rfloor> mod 256)"

text \<open>
  \<open>cv2.normalize(src, None, alpha, beta, cv2.NORM_MINMAX)\<close>: the least value of
  \<open>src\<close> goes to the smaller of \<open>alpha\<close> and \<open>beta\<close>, the greatest to the larger
  one, linearly in between; a constant array (a spread of at most \<open>DBL_EPSILON\<close>,
  which is \<open>2\<^sup>-\<^sup>5\<^sup>2\<close>) goes to the lower bound everywhere.
\<close>

definition normalize_minmax :: "real list list \<Rightarrow> real \<Rightarrow> real \<Rightarrow> real list list" where
  "normalize_minmax src alpha beta =
     (let smin = Min (set (concat src));
          smax = Max (set (concat src));
          dmin = min alpha beta;
          dmax = max alpha beta;
          scale = (dmax - dmin) * (if smax - smin > 1 / 2 ^ 52 then 1 / (smax - smin) else 0);
          shift = dmin - smin * scale
      in map (map (\<lambda>v. v * scale + shift)) src)"

text \<open>
  The in-place sum \<open>a += b\<close> of two arrays. The arrays of the source have the shape of
  the frame; for another shape NumPy raises (a shape with a dimension of size one, which
  it would stretch, does not come out of the calls of this program and raises here too).
\<close>

definition same_shape :: "heat_map \<Rightarrow> heat_map \<Rightarrow> bool" where
  "same_shape a b = (map length a = map length b)"

definition add_maps :: "heat_map \<Rightarrow> heat_map \<Rightarrow> exn + heat_map" where
  "add_maps a b =
     (if same_shape a b then Inr (map2 (map2 (+)) a b) else Inl ValueError)"

text \<open>Lines 515--531: the heat map of one key frame.\<close>

definition frame_heat_map :: "nat \<Rightarrow> nat \<Rightarrow> frame_analysis \<Rightarrow> exn + heat_map" where
  "frame_heat_map height width fa =
     (let painted = paint_faces (faces fa) (zeros height width)
      in case saliency fa of
           None \<Rightarrow> Inr painted
         | Some saliency_map \<Rightarrow>
             add_maps painted
               (normalize_minmax (map (map uint8_of) saliency_map) 0 salience_weight))"

text \<open>Lines 508--534: the loop over the key frames, with \<open>avg_heat_map\<close> as its state.\<close>

fun accumulate :: "nat \<Rightarrow> nat \<Rightarrow> frame_analysis list \<Rightarrow> heat_map \<Rightarrow> exn + heat_map" where
  "accumulate height width [] avg_heat_map = Inr avg_heat_map"
| "accumulate height width (fa # rest) avg_heat_map =
     (case frame_heat_map height width fa of
        Inl e \<Rightarrow> Inl e
      | Inr m \<Rightarrow>
          (case add_maps avg_heat_map m of
             Inl e \<Rightarrow> Inl e
           | Inr avg' \<Rightarrow> accumulate height width rest avg'))"

text \<open>Lines 503--538: the sum is divided by the number of key frames when there is one.\<close>

definition aggregate :: "nat \<Rightarrow> nat \<Rightarrow> frame_analysis list \<Rightarrow> exn + heat_map" where
  "aggregate height width key_frames =
     (case accumulate height width key_frames (zeros height width) of
        Inl e \<Rightarrow> Inl e
      | Inr avg_heat_map \<Rightarrow>
          Inr (if length key_frames > 0
               then map (map (\<lambda>v. v / real (length key_frames))) avg_heat_map
               else avg_heat_map))"

subsection \<open>The world outside the program\<close>

text \<open>
  What is at the path of the output video: nothing, a file that is not a finished video,
  or a finished video.
\<close>

datatype file_state = Absent | Partial | Complete

text \<open>
  A finished \<open>ffmpeg\<close> process: its return code, and what it left at the path of its
  output file (\<open>None\<close> when it ended before touching that path).
\<close>

record proc =
  returncode :: int
  leaves :: "file_state option"

text \<open>
  The value of \<open>-vf\<close> (or \<open>-c copy\<close>) in the five \<open>ffmpeg\<close> commands of
  \<open>resize_for_tiktok\<close>; the arguments of a crop are in the order of the command,
  width, height, x, y:
  \<^item> line 320, \<open>crop=iw*w:ih*h:iw*x:ih*y,scale=-2:1920\<close>, one segment of ClipsAI;
  \<^item> line 373, the concatenation of the segments;
  \<^item> line 587, \<open>crop=w:h:x:0,scale=1080:1920\<close> in whole pixels;
  \<^item> line 758, \<open>crop=w:h:x:y,scale=1080:1920\<close> with the floats of the positional crop;
  \<^item> line 805, the fixed centred crop.
\<close>

datatype vf =
    SegmentCrop real real real real
  | ConcatCopy
  | PixelCrop nat nat nat nat
  | PositionCrop real real real real
  | ThirdsCrop

text \<open>
  The four methods, named as the comments of the source name them. The specification
  counts them as stages 1 to 4.
\<close>

datatype stage = Method1 | Method1_5 | Method2 | Method3

text \<open>
  What the program does to the file system, in the order it does it: entering a method,
  creating the directory of the output (line 205), creating a directory for intermediate
  files (lines 276, 449, 661), \<open>shutil.rmtree\<close> on such a directory with the flag saying
  whether the directory is gone afterwards (lines 610, 781), and an \<open>ffmpeg\<close> run with
  the path of its output file.
\<close>

datatype event =
    Enter stage
  | MakeOutDir
  | MakeTempDir string
  | RmTree string bool
  | Ffmpeg string vf proc

text \<open>A segment of ClipsAI is a dictionary; \<open>.get\<close> yields \<open>None\<close> for a missing key.\<close>

record segment =
  start_time :: "real option"
  end_time :: "real option"
  seg_x :: "real option"
  seg_y :: "real option"
  seg_width :: "real option"
  seg_height :: "real option"

text \<open>
  The result of \<open>clipsai_resize\<close>: a false value, an object without \<open>segments\<close>, or
  an object with its list of segments.
\<close>

datatype crops = NoCrops | NoSegmentsAttribute | Crops "segment list"

text \<open>
  The answers of everything the program calls: an exception is \<open>Inl\<close>, a result is
  \<open>Inr\<close>. The fields follow the order of the calls in the source.
  \<^item> \<open>probe1\<close>: the \<open>ffprobe\<close> run and the JSON parse of lines 225--238, whose result
    is only printed.
  \<^item> \<open>segment_run i\<close>: the \<open>ffmpeg\<close> run for segment \<open>i\<close> (line 339).
  \<^item> \<open>video\<close>: width, height and number of frames read from the capture (lines 421--425).
  \<^item> \<open>read_frame n\<close>: \<open>cap.read()\<close> after a seek to frame \<open>n\<close>; \<open>None\<close> when
    \<open>ret\<close> is false, otherwise what the analysis of that frame in lines 509--531 yields.
  \<^item> \<open>visualise\<close>: the drawing of the chosen window on the middle frame (lines 567--578).
  \<^item> \<open>probe2\<close>: the \<open>ffprobe\<close> run of line 646 with the parse of line 655; \<open>None\<close>
    for a return code other than 0, otherwise width, height and duration.
  \<^item> \<open>extract_frames\<close>: the frame files found after the extraction (lines 672--674).
  \<^item> \<open>test_crop d\<close>: the run that writes the test frame of the position named \<open>d\<close>
    (line 743), with the content of that frame.
\<close>

record world =
  RESIZE_AVAILABLE :: bool
  SCENE_DETECT_AVAILABLE :: bool
  makedirs_out :: "exn + unit"
  probe1 :: "exn + unit"
  clipsai_resize :: "exn + crops"
  makedirs_temp_resize :: "exn + unit"
  segment_run :: "nat \<Rightarrow> exn + proc"
  write_concat :: "exn + unit"
  concat_run :: "exn + proc"
  video :: "nat \<times> nat \<times> nat"
  detect_scenes :: "exn + scene list"
  mkdtemp :: "exn + string"
  read_frame :: "nat \<Rightarrow> (exn + frame_analysis) option"
  visualise :: "exn + unit"
  crop_run :: "exn + proc"
  rmtree_temp :: bool
  probe2 :: "exn + (real \<times> real \<times> real) option"
  makedirs_frames :: "exn + unit"
  extract_frames :: "exn + string list"
  test_crop :: "string \<Rightarrow> exn + nat"
  advanced_run :: "exn + proc"
  rmtree_frames :: bool
  thirds_run :: "exn + proc"

subsection \<open>Paths\<close>

text \<open>\<open>os.path.dirname\<close> and \<open>os.path.join\<close> of \<open>posixpath\<close>.\<close>

definition dirname :: "string \<Rightarrow> string" where
  "dirname p =
     (let head = rev (dropWhile (\<lambda>c. c \<noteq> CHR ''/'') (rev p))
      in if head \<noteq> [] \<and> \<not> list_all (\<lambda>c. c = CHR ''/'') head
         then rev (dropWhile (\<lambda>c. c = CHR ''/'') (rev head))
         else head)"

definition path_join :: "string \<Rightarrow> string \<Rightarrow> string" where
  "path_join a b =
     (if b \<noteq> [] \<and> hd b = CHR ''/'' then b
      else if a = [] \<or> last a = CHR ''/'' then a @ b
      else a @ ''/'' @ b)"

text \<open>The format \<open>{i:03d}\<close> of line 307.\<close>

function str_nat :: "nat \<Rightarrow> string" where
  "str_nat n =
     (if n < 10 then [''0123456789'' ! n]
      else str_nat (n div 10) @ [''0123456789'' ! (n mod 10)])"
  by pat_completeness auto
termination
  by (relation "measure (\<lambda>n. n)") auto

declare str_nat.simps [simp del]

definition pad3 :: "nat \<Rightarrow> string" where
  "pad3 i = replicate (3 - length (str_nat i)) CHR ''0'' @ str_nat i"

subsection \<open>Method 1: the segments of ClipsAI\<close>

text \<open>
  A method either returns \<open>True\<close> from \<open>resize_for_tiktok\<close> or leaves the next method
  to run; an exception inside a method is caught by its own \<open>except Exception\<close> and
  reaches the next method as well.
\<close>

datatype flow = ReturnTrue | Continue

text \<open>
  Lines 284--304: a segment without its times or its crop fields, or with a width or
  height that is not positive, is skipped.
\<close>

definition segment_filter :: "segment \<Rightarrow> vf option" where
  "segment_filter s =
     (case (start_time s, end_time s) of
        (Some st, Some en) \<Rightarrow>
          (case (seg_x s, seg_y s, seg_width s, seg_height s) of
             (Some crop_x, Some crop_y, Some crop_width, Some crop_height) \<Rightarrow>
               if crop_width \<le> 0 \<or> crop_height \<le> 0 then None
               else Some (SegmentCrop crop_width crop_height crop_x crop_y)
           | _ \<Rightarrow> None)
      | _ \<Rightarrow> None)"

text \<open>
  Lines 282--354: the loop over the segments, from index \<open>i\<close> on. It yields the runs
  it made and the list \<open>segment_files\<close>. An exception of a run is caught inside the loop.
\<close>

fun process_segments :: "world \<Rightarrow> string \<Rightarrow> nat \<Rightarrow> segment list \<Rightarrow> event list \<times> string list" where
  "process_segments w temp_dir i [] = ([], [])"
| "process_segments w temp_dir i (s # rest) =
     (let (events, segment_files) = process_segments w temp_dir (i + 1) rest
      in case segment_filter s of
           None \<Rightarrow> (events, segment_files)
         | Some f \<Rightarrow>
             (case segment_run w i of
                Inl e \<Rightarrow> (events, segment_files)
              | Inr p \<Rightarrow>
                  (Ffmpeg (path_join temp_dir (''segment_'' @ pad3 i @ ''.mp4'')) f p # events,
                   if returncode p = 0
                   then path_join temp_dir (''segment_'' @ pad3 i @ ''.mp4'') # segment_files
                   else segment_files)))"

text \<open>Lines 208--410.\<close>

definition method1 :: "world \<Rightarrow> string \<Rightarrow> event list \<times> flow" where
  "method1 w output_file =
     (case probe1 w of
        Inl e \<Rightarrow> ([Enter Method1], Continue)
      | Inr u \<Rightarrow>
     (case clipsai_resize w of
        Inl e \<Rightarrow> ([Enter Method1], Continue)
      | Inr NoCrops \<Rightarrow> ([Enter Method1], Continue)
      | Inr NoSegmentsAttribute \<Rightarrow> ([Enter Method1], Continue)
      | Inr (Crops segments) \<Rightarrow>
          if segments = [] then ([Enter Method1], Continue)
          else
     (case makedirs_temp_resize w of
        Inl e \<Rightarrow> ([Enter Method1], Continue)
      | Inr u \<Rightarrow>
          (let temp_dir = path_join (dirname output_file) ''temp_resize'';
               (events, segment_files) = process_segments w temp_dir 0 segments
           in if segment_files = []
              then (Enter Method1 # MakeTempDir temp_dir # events, Continue)
              else
     (case write_concat w of
        Inl e \<Rightarrow> (Enter Method1 # MakeTempDir temp_dir # events, Continue)
      | Inr u \<Rightarrow>
     (case concat_run w of
        Inl e \<Rightarrow> (Enter Method1 # MakeTempDir temp_dir # events, Continue)
      | Inr p \<Rightarrow>
          (Enter Method1 # MakeTempDir temp_dir # events @ [Ffmpeg output_file ConcatCopy p],
           if returncode p = 0 then ReturnTrue else Continue)))))))"

subsection \<open>Method 1.5: scenes, faces and saliency\<close>

text \<open>
  Lines 461--481: the middle frame of a scene; an entry that cannot be unpacked counts as
  the whole video.
\<close>

definition mid_frame :: "scene \<Rightarrow> nat \<Rightarrow> nat" where
  "mid_frame s total_frames =
     (case s of Scene scene_start scene_end \<Rightarrow> (scene_start + scene_end) div 2
              | Unparsable \<Rightarrow> (0 + total_frames) div 2)"

text \<open>Lines 459--491: one sample for every scene whose middle frame decodes.\<close>

definition key_frame_samples :: "world \<Rightarrow> scene list \<Rightarrow> nat \<Rightarrow> (exn + frame_analysis) list" where
  "key_frame_samples w scene_list total_frames =
     List.map_filter (\<lambda>s. read_frame w (mid_frame s total_frames)) scene_list"

text \<open>The first exception in a list of results, or all the results.\<close>

fun collect :: "(exn + 'a) list \<Rightarrow> exn + 'a list" where
  "collect [] = Inr []"
| "collect (Inl e # rest) = Inl e"
| "collect (Inr a # rest) = (case collect rest of Inl e \<Rightarrow> Inl e | Inr as \<Rightarrow> Inr (a # as))"

text \<open>Lines 413--629, for the case that the libraries are there.\<close>

definition method1_5 :: "world \<Rightarrow> string \<Rightarrow> event list \<times> flow" where
  "method1_5 w output_file =
     (case video w of (width, height, total_frames) \<Rightarrow>
     (case detect_scenes w of
        Inl e \<Rightarrow> ([Enter Method1_5], Continue)
      | Inr detected \<Rightarrow>
     (case mkdtemp w of
        Inl e \<Rightarrow> ([Enter Method1_5], Continue)
      | Inr temp_dir \<Rightarrow>
     (case collect (key_frame_samples w (effective_scene_list detected total_frames) total_frames) of
        Inl e \<Rightarrow> ([Enter Method1_5, MakeTempDir temp_dir], Continue)
      | Inr key_frames \<Rightarrow>
     (case aggregate height width key_frames of
        Inl e \<Rightarrow> ([Enter Method1_5, MakeTempDir temp_dir], Continue)
      | Inr avg_heat_map \<Rightarrow>
     (case visualise w of
        Inl e \<Rightarrow> ([Enter Method1_5, MakeTempDir temp_dir], Continue)
      | Inr u \<Rightarrow>
     (case crop_run w of
        Inl e \<Rightarrow> ([Enter Method1_5, MakeTempDir temp_dir], Continue)
      | Inr p \<Rightarrow>
          (let W = select_crop avg_heat_map width height
           in ([Enter Method1_5, MakeTempDir temp_dir,
                Ffmpeg output_file (PixelCrop (cw_width W) (cw_height W) (cw_x W) (cw_y W)) p,
                RmTree temp_dir (rmtree_temp w)],
               if returncode p = 0 then ReturnTrue else Continue)))))))))"

subsection \<open>Method 2: the positional crop\<close>

record crop_pos =
  pos_x :: real
  pos_y :: real
  pos_width :: real
  pos_height :: real
  pos_desc :: string

text \<open>Lines 681--727. The width and height of the probe are floats.\<close>

definition crop_positions :: "real \<Rightarrow> real \<Rightarrow> crop_pos list" where
  "crop_positions width height =
     (let golden_ratio = 618 / 1000;
          target_height = height;
          target_width = height * (9 / 16);
          left_golden = max 0 ((width - target_width) * golden_ratio);
          right_golden = max 0 ((width - target_width) * (1 - golden_ratio))
      in [\<lparr>pos_x = max 0 ((width - target_width) / 2), pos_y = 0,
            pos_width = target_width, pos_height = target_height, pos_desc = ''center''\<rparr>,
          \<lparr>pos_x = left_golden, pos_y = 0,
            pos_width = target_width, pos_height = target_height, pos_desc = ''golden_left''\<rparr>,
          \<lparr>pos_x = right_golden, pos_y = 0,
            pos_width = target_width, pos_height = target_height, pos_desc = ''golden_right''\<rparr>,
          \<lparr>pos_x = 0, pos_y = 0,
            pos_width = target_width, pos_height = target_height, pos_desc = ''left_align''\<rparr>,
          \<lparr>pos_x = max 0 (width - target_width), pos_y = 0,
            pos_width = target_width, pos_height = target_height, pos_desc = ''right_align''\<rparr>])"

text \<open>Lines 730--733: the list \<open>test_frames\<close> of pairs of a file name and a position.\<close>

definition test_frames :: "string \<Rightarrow> real \<Rightarrow> real \<Rightarrow> (string \<times> crop_pos) list" where
  "test_frames frames_dir width height =
     map (\<lambda>pos. (path_join frames_dir (''crop_'' @ pos_desc pos @ ''.jpg''), pos))
         (crop_positions width height)"

text \<open>
  Line 748: \<open>next((pos for _, pos in test_frames if pos['desc'] == 'golden_left'),
  crop_positions[0])\<close>.
\<close>

fun next_golden_left :: "(string \<times> crop_pos) list \<Rightarrow> crop_pos \<Rightarrow> crop_pos" where
  "next_golden_left [] fallback = fallback"
| "next_golden_left ((test_frame, pos) # rest) fallback =
     (if pos_desc pos = ''golden_left'' then pos else next_golden_left rest fallback)"

definition best_pos :: "string \<Rightarrow> real \<Rightarrow> real \<Rightarrow> crop_pos" where
  "best_pos frames_dir width height =
     next_golden_left (test_frames frames_dir width height)
       (case crop_positions width height of p # ps \<Rightarrow> p)"

text \<open>Lines 632--796.\<close>

definition method2 :: "world \<Rightarrow> string \<Rightarrow> event list \<times> flow" where
  "method2 w output_file =
     (case probe2 w of
        Inl e \<Rightarrow> ([Enter Method2], Continue)
      | Inr None \<Rightarrow> ([Enter Method2], Continue)
      | Inr (Some (width, height, duration)) \<Rightarrow>
     (case makedirs_frames w of
        Inl e \<Rightarrow> ([Enter Method2], Continue)
      | Inr u \<Rightarrow>
          (let frames_dir = path_join (dirname output_file) ''scene_analysis''
           in
     (case extract_frames w of
        Inl e \<Rightarrow> ([Enter Method2, MakeTempDir frames_dir], Continue)
      | Inr frame_files \<Rightarrow>
          if frame_files = [] then ([Enter Method2, MakeTempDir frames_dir], Continue)
          else
     (case collect (map (\<lambda>(test_frame, pos). test_crop w (pos_desc pos))
                        (test_frames frames_dir width height)) of
        Inl e \<Rightarrow> ([Enter Method2, MakeTempDir frames_dir], Continue)
      | Inr contents \<Rightarrow>
     (case advanced_run w of
        Inl e \<Rightarrow> ([Enter Method2, MakeTempDir frames_dir], Continue)
      | Inr p \<Rightarrow>
          (let best = best_pos frames_dir width height
           in ([Enter Method2, MakeTempDir frames_dir,
                Ffmpeg output_file
                  (PositionCrop (pos_width best) (pos_height best) (pos_x best) (pos_y best)) p,
                RmTree frames_dir (rmtree_frames w)],
               if returncode p = 0 then ReturnTrue else Continue))))))))"

subsection \<open>Method 3: the fixed crop\<close>

text \<open>Lines 799--832.\<close>

definition method3 :: "world \<Rightarrow> string \<Rightarrow> event list \<times> flow" where
  "method3 w output_file =
     (case thirds_run w of
        Inl e \<Rightarrow> ([Enter Method3], Continue)
      | Inr p \<Rightarrow>
          ([Enter Method3, Ffmpeg output_file ThirdsCrop p],
           if returncode p = 0 then ReturnTrue else Continue))"

subsection \<open>The cascade\<close>

text \<open>
  Lines 199--842: the result of \<open>resize_for_tiktok\<close> and what it did. Without the
  resize of ClipsAI the function returns \<open>False\<close> at once (line 199); an exception of
  line 205 reaches the outer handler, which returns \<open>False\<close>; without PySceneDetect or
  OpenCV method 1.5 is left out (line 413).
\<close>

definition resize_for_tiktok :: "world \<Rightarrow> string \<Rightarrow> bool \<times> event list" where
  "resize_for_tiktok w output_file =
     (if \<not> RESIZE_AVAILABLE w then (False, [])
      else
     (case makedirs_out w of
        Inl e \<Rightarrow> (False, [])
      | Inr u \<Rightarrow>
     (case method1 w output_file of
        (ev1, ReturnTrue) \<Rightarrow> (True, MakeOutDir # ev1)
      | (ev1, Continue) \<Rightarrow>
     (case (if SCENE_DETECT_AVAILABLE w then method1_5 w output_file else ([], Continue)) of
        (ev2, ReturnTrue) \<Rightarrow> (True, MakeOutDir # ev1 @ ev2)
      | (ev2, Continue) \<Rightarrow>
     (case method2 w output_file of
        (ev3, ReturnTrue) \<Rightarrow> (True, MakeOutDir # ev1 @ ev2 @ ev3)
      | (ev3, Continue) \<Rightarrow>
     (case method3 w output_file of
        (ev4, ReturnTrue) \<Rightarrow> (True, MakeOutDir # ev1 @ ev2 @ ev3 @ ev4)
      | (ev4, Continue) \<Rightarrow> (False, MakeOutDir # ev1 @ ev2 @ ev3 @ ev4)))))))"

subsection \<open>Reading a run\<close>

text \<open>The methods entered, in order.\<close>

fun attempts :: "event list \<Rightarrow> stage list" where
  "attempts [] = []"
| "attempts (Enter s # es) = s # attempts es"
| "attempts (e # es) = attempts es"

text \<open>
  The directories for intermediate files that exist after the events, given those that
  existed before.
\<close>

fun live_dirs :: "event list \<Rightarrow> string list \<Rightarrow> string list" where
  "live_dirs [] ds = ds"
| "live_dirs (MakeTempDir d # es) ds = live_dirs es (List.insert d ds)"
| "live_dirs (RmTree d gone # es) ds = live_dirs es (if gone then removeAll d ds else ds)"
| "live_dirs (e # es) ds = live_dirs es ds"

text \<open>
  What is at \<open>path\<close> after the events, given what was there before: every run whose
  output file is \<open>path\<close> and which touched it replaces what was there.
\<close>

fun file_after :: "string \<Rightarrow> event list \<Rightarrow> file_state \<Rightarrow> file_state" where
  "file_after path [] s = s"
| "file_after path (Ffmpeg target f p # es) s =
     file_after path es
       (if target = path then (case leaves p of None \<Rightarrow> s | Some s' \<Rightarrow> s') else s)"
| "file_after path (e # es) s = file_after path es s"

subsection \<open>A world for concrete runs\<close>

text \<open>
  In this world the libraries are present and directories can be made, a video of 32
  by 16 pixels has 100 frames of which none decodes, and every detector and every
  \<open>ffmpeg\<close> run raises. The concrete runs below change single fields of it.
\<close>

definition failing_world :: world where
  "failing_world =
     \<lparr>RESIZE_AVAILABLE = True, SCENE_DETECT_AVAILABLE = True, makedirs_out = Inr (),
      probe1 = Inr (), clipsai_resize = Inl ExternalError, makedirs_temp_resize = Inr (),
      segment_run = (\<lambda>i. Inl ExternalError), write_concat = Inr (),
      concat_run = Inl ExternalError,
      video = (32, 16, 100), detect_scenes = Inl ExternalError,
      mkdtemp = Inr ''/tmp/scene_analysis_0'', read_frame = (\<lambda>n. None),
      visualise = Inr (), crop_run = Inl ExternalError, rmtree_temp = True,
      probe2 = Inl ExternalError, makedirs_frames = Inr (), extract_frames = Inr [],
      test_crop = (\<lambda>d. Inr 0), advanced_run = Inl ExternalError, rmtree_frames = True,
      thirds_run = Inl ExternalError\<rparr>"

subsection \<open>The contribution of a frame, pixel by pixel\<close>

text \<open>
  The specification describes the heat map of a frame pixel by pixel: the weight of a
  face where a face rectangle covers the pixel, plus the saliency of the frame scaled
  linearly so that its least value is 0 and its greatest is the saliency weight. These
  definitions follow that description; the theorems compare them with the arrays computed
  above. The rectangle of a face \<open>(x, y, w, h)\<close> spans the corners \<open>(x, y)\<close> and
  \<open>(x + w, y + h)\<close>.
\<close>

definition spec_face_cover :: "rect list \<Rightarrow> nat \<Rightarrow> nat \<Rightarrow> bool" where
  "spec_face_cover fs r c =
     list_ex (\<lambda>(x, y, w, h). x \<le> c \<and> c \<le> x + w \<and> y \<le> r \<and> r \<le> y + h) fs"

definition spec_minmax :: "real list list \<Rightarrow> real \<Rightarrow> nat \<Rightarrow> nat \<Rightarrow> real" where
  "spec_minmax m hi r c =
     (if Max (set (concat m)) - Min (set (concat m)) > 1 / 2 ^ 52
      then (m ! r ! c - Min (set (concat m))) * hi
             / (Max (set (concat m)) - Min (set (concat m)))
      else 0)"

definition saliency_fits :: "nat \<Rightarrow> nat \<Rightarrow> frame_analysis \<Rightarrow> bool" where
  "saliency_fits height width fa =
     (case saliency fa of None \<Rightarrow> True | Some saliency_map \<Rightarrow> heat_shape height width saliency_map)"

definition spec_contribution :: "frame_analysis \<Rightarrow> nat \<Rightarrow> nat \<Rightarrow> real" where
  "spec_contribution fa r c =
     (if spec_face_cover (faces fa) r c then 6 / 10 else 0) +
     (case saliency fa of
        None \<Rightarrow> 0
      | Some saliency_map \<Rightarrow> spec_minmax (map (map uint8_of) saliency_map) (4 / 10) r c)"

section \<open>Properties of the selector\<close>

subsection \<open>The positions visited by the selector\<close>

lemma py_range_map:
  "0 < s \<Longrightarrow> py_range (a * s) (n + 1) s = map (\<lambda>k. k * s) [a..<n div s + 1]"
proof (induction "a * s" "n + 1" s arbitrary: a rule: py_range.induct)
  case (1 step)
  show ?case
  proof (cases "n + 1 \<le> a * step")
    case True
    then have "n div step < a" using 1(2)
      by (simp add: div_less_iff_less_mult)
    then show ?thesis using True 1(2) by (subst py_range.simps) simp
  next
    case False
    then have le: "a \<le> n div step" using 1(2)
      by (simp add: less_eq_div_iff_mult_less_eq)
    have rec: "py_range (a * step + step) (n + 1) step
                 = map (\<lambda>k. k * step) [Suc a..<n div step + 1]"
      using 1(1)[of "Suc a"] False 1(2) by (simp del: upt_Suc add: add.commute)
    have unf: "py_range (a * step) (n + 1) step
                 = a * step # py_range (a * step + step) (n + 1) step"
      using False 1(2) by (subst py_range.simps) simp
    have upt: "[a..<n div step + 1] = a # [Suc a..<n div step + 1]"
      using le by (simp add: upt_conv_Cons del: upt_Suc)
    show ?thesis unfolding unf rec upt by simp
  qed
qed

lemma candidates_map:
  "candidates width tw =
     map (\<lambda>k. k * max 1 ((width - tw) div 10))
       [0..<(width - tw) div max 1 ((width - tw) div 10) + 1]"
  using py_range_map [of "max 1 ((width - tw) div 10)" 0 "width - tw"]
  by (simp add: candidates_def)


lemma candidates_bound: "x \<in> set (candidates width tw) \<Longrightarrow> x \<le> width - tw"
  unfolding candidates_map
  by (auto simp del: upt_Suc simp add: less_Suc_eq_le less_eq_div_iff_mult_less_eq)


subsection \<open>The loop of the selector\<close>

lemma sliding_window_best:
  assumes "sliding_window hm th tw xs (bs, bx) = (rs, rx)"
  shows "bs \<le> rs \<and> (\<forall>x \<in> set xs. crop_score hm th x tw \<le> rs) \<and>
         ((rs = bs \<and> rx = bx) \<or> (bs < rs \<and> rx \<in> set xs \<and> crop_score hm th rx tw = rs))"
  using assms
proof (induction xs arbitrary: bs bx)
  case Nil
  then show ?case by simp
next
  case (Cons x xs)
  show ?case
  proof (cases "crop_score hm th x tw > bs")
    case True
    with Cons.prems
    have "sliding_window hm th tw xs (crop_score hm th x tw, x) = (rs, rx)" by simp
    from Cons.IH[OF this] True show ?thesis by auto
  next
    case False
    with Cons.prems have "sliding_window hm th tw xs (bs, bx) = (rs, rx)" by simp
    from Cons.IH[OF this] False show ?thesis by auto
  qed
qed



lemma select_crop_fields:
  "cw_width (select_crop hm width height) = fst (target_dims width height)"
  "cw_height (select_crop hm width height) = snd (target_dims width height)"
  "cw_y (select_crop hm width height) = 0"
  "cw_x (select_crop hm width height) =
     snd (sliding_window hm (snd (target_dims width height)) (fst (target_dims width height))
            (candidates width (fst (target_dims width height))) (-1, 0))"
  by (simp_all add: select_crop_def split: prod.splits)

lemma target_width_le: "fst (target_dims width height) \<le> width"
  by (simp add: target_dims_def Let_def)

lemma target_height_le: "snd (target_dims width height) \<le> height"
  by (simp add: target_dims_def Let_def) arith

lemma select_crop_x_bound:
  "cw_x (select_crop hm width height) \<le> width - cw_width (select_crop hm width height)"
proof -
  let ?tw = "fst (target_dims width height)" and ?th = "snd (target_dims width height)"
  obtain rs rx where sw: "sliding_window hm ?th ?tw (candidates width ?tw) (-1, 0) = (rs, rx)"
    by (cases "sliding_window hm ?th ?tw (candidates width ?tw) (-1, 0)")
  from sliding_window_best[OF sw] have "rx = 0 \<or> rx \<in> set (candidates width ?tw)" by auto
  then have "rx \<le> width - ?tw" using candidates_bound by auto
  then show ?thesis by (simp add: select_crop_fields sw)
qed

section \<open>Properties of the aggregation\<close>

lemma heat_shape_iff:
  "heat_shape h w hm \<longleftrightarrow> map length hm = replicate h w"
  by (auto simp: heat_shape_def list_all_length list_eq_iff_nth_eq)

lemma heat_shape_nth: "heat_shape h w hm \<Longrightarrow> length hm = h \<and> (\<forall>r<h. length (hm ! r) = w)"
  by (auto simp: heat_shape_def list_all_length)

lemma zeros_shape: "heat_shape h w (zeros h w)"
  by (simp add: heat_shape_def zeros_def list_all_length)

lemma zeros_nth: "r < h \<Longrightarrow> c < w \<Longrightarrow> zeros h w ! r ! c = 0"
  by (simp add: zeros_def)

lemma rectangle_filled_lengths:
  "map length (rectangle_filled img p q col) = map length img"
  by (auto simp: rectangle_filled_def list_eq_iff_nth_eq nth_enumerate_eq)

lemma rectangle_filled_nth:
  "r < length img \<Longrightarrow> c < length (img ! r) \<Longrightarrow>
   rectangle_filled img p q col ! r ! c = (if in_rectangle p q r c then col else img ! r ! c)"
  by (simp add: rectangle_filled_def nth_enumerate_eq)

lemma paint_faces_lengths: "map length (paint_faces fs img) = map length img"
  unfolding paint_faces_def
  by (induction fs arbitrary: img) (auto simp: rectangle_filled_lengths)

lemma map_length_nth: "map length a = map length b \<Longrightarrow> length a = length b \<and> (\<forall>r<length a. length (a ! r) = length (b ! r))"
  by (metis length_map nth_map)

lemma paint_faces_nth:
  "r < length img \<Longrightarrow> c < length (img ! r) \<Longrightarrow>
   paint_faces fs img ! r ! c = (if spec_face_cover fs r c then face_weight else img ! r ! c)"
proof (induction fs arbitrary: img)
  case Nil
  then show ?case by (simp add: paint_faces_def spec_face_cover_def)
next
  case (Cons f fs)
  obtain x y w h where f: "f = (x, y, w, h)" by (cases f) auto
  let ?img = "rectangle_filled img (x, y) (x + w, y + h) face_weight"
  have unf: "paint_faces (f # fs) img = paint_faces fs ?img"
    by (simp add: paint_faces_def f)
  have len: "r < length ?img" "c < length (?img ! r)"
    using Cons.prems map_length_nth[OF rectangle_filled_lengths[of img "(x, y)" "(x + w, y + h)" face_weight]]
    by auto
  show ?case
    unfolding unf Cons.IH[OF len]
    using Cons.prems
    by (auto simp: rectangle_filled_nth spec_face_cover_def f in_rectangle_def)
qed

lemma normalize_minmax_lengths: "map length (normalize_minmax src a b) = map length src"
  by (simp add: normalize_minmax_def Let_def list_eq_iff_nth_eq)

lemma normalize_minmax_nth:
  assumes "r < length src" "c < length (src ! r)" "0 \<le> hi"
  shows "normalize_minmax src 0 hi ! r ! c = spec_minmax src hi r c"
proof -
  have mm: "min 0 hi = 0" "max 0 hi = hi" using assms(3) by auto
  show ?thesis
    using assms(1,2)
    by (simp add: normalize_minmax_def spec_minmax_def Let_def mm
          diff_divide_distrib left_diff_distrib)
qed

lemma spec_minmax_bounds:
  assumes "r < length src" "c < length (src ! r)" "0 \<le> hi"
  shows "0 \<le> spec_minmax src hi r c \<and> spec_minmax src hi r c \<le> hi"
proof -
  let ?S = "set (concat src)"
  have mem: "src ! r ! c \<in> ?S"
    using assms(1,2) by (auto intro!: bexI[of _ "src ! r"])
  have fin: "finite ?S" by simp
  have lo: "Min ?S \<le> src ! r ! c" using Min_le[OF fin mem] .
  have hi: "src ! r ! c \<le> Max ?S" using Max_ge[OF fin mem] .
  show ?thesis
  proof (cases "Max ?S - Min ?S > 1 / 2 ^ 52")
    case True
    then have pos: "0 < Max ?S - Min ?S" by (smt (verit) zero_less_power divide_pos_pos)
    have "(src ! r ! c - Min ?S) * hi \<le> (Max ?S - Min ?S) * hi"
      using lo hi assms(3) by (intro mult_right_mono) auto
    then have "(src ! r ! c - Min ?S) * hi / (Max ?S - Min ?S) \<le> hi"
      using pos by (simp add: pos_divide_le_eq mult.commute)
    moreover have "0 \<le> (src ! r ! c - Min ?S) * hi / (Max ?S - Min ?S)"
      using lo pos assms(3) by simp
    ultimately show ?thesis using True by (simp add: spec_minmax_def)
  next
    case False
    then show ?thesis using assms(3) by (simp add: spec_minmax_def)
  qed
qed

lemma add_maps_Inr:
  "map length a = map length b \<Longrightarrow> add_maps a b = Inr (map2 (map2 (+)) a b)"
  by (simp add: add_maps_def same_shape_def)

lemma map2_add_lengths:
  "map length a = map length b \<Longrightarrow> map length (map2 (map2 (+)) a b) = map length a"
  by (auto simp: list_eq_iff_nth_eq dest!: map_length_nth)

lemma map2_add_nth:
  "map length a = map length b \<Longrightarrow> r < length a \<Longrightarrow> c < length (a ! r) \<Longrightarrow>
   map2 (map2 (+)) a b ! r ! c = a ! r ! c + (b ! r ! c :: real)"
  by (auto dest!: map_length_nth)


lemma paint_zeros_nth:
  "r < h \<Longrightarrow> c < w \<Longrightarrow>
   paint_faces fs (zeros h w) ! r ! c = (if spec_face_cover fs r c then 6 / 10 else 0)"
  by (simp add: paint_faces_nth zeros_def face_weight_def)

lemma paint_zeros_lengths: "map length (paint_faces fs (zeros h w)) = replicate h w"
  by (simp add: paint_faces_lengths zeros_def)

lemma frame_heat_map_pointwise:
  assumes "saliency_fits h w fa"
  shows "\<exists>m. frame_heat_map h w fa = Inr m \<and> heat_shape h w m \<and>
             (\<forall>r<h. \<forall>c<w. m ! r ! c = spec_contribution fa r c)"
proof (cases "saliency fa")
  case None
  then show ?thesis
    by (simp add: frame_heat_map_def heat_shape_iff paint_zeros_lengths paint_zeros_nth
                  spec_contribution_def)
next
  case (Some s)
  let ?p = "paint_faces (faces fa) (zeros h w)"
  let ?q = "map (map uint8_of) s"
  let ?n = "normalize_minmax ?q 0 salience_weight"
  have s: "map length s = replicate h w"
    using assms Some by (simp add: saliency_fits_def heat_shape_iff)
  have q: "map length ?q = replicate h w"
    using s by (simp add: comp_def)
  have n: "map length ?n = replicate h w"
    by (simp only: normalize_minmax_lengths q)
  have pn: "map length ?p = map length ?n"
    by (simp only: n paint_zeros_lengths)
  have lenp: "length ?p = h" "\<forall>r<h. length (?p ! r) = w"
    using heat_shape_nth[of h w ?p] by (simp_all add: heat_shape_iff paint_zeros_lengths)
  have "heat_shape h w ?q"
    using q by (simp only: heat_shape_iff)
  then have lenq: "length ?q = h" "\<forall>r<h. length (?q ! r) = w"
    using heat_shape_nth[of h w ?q] by blast+
  have eq: "frame_heat_map h w fa = Inr (map2 (map2 (+)) ?p ?n)"
    using Some add_maps_Inr[OF pn] by (simp add: frame_heat_map_def)
  have shape: "heat_shape h w (map2 (map2 (+)) ?p ?n)"
    by (simp only: heat_shape_iff map2_add_lengths[OF pn] paint_zeros_lengths)
  have val: "map2 (map2 (+)) ?p ?n ! r ! c = spec_contribution fa r c" if "r < h" "c < w" for r c
  proof -
    have "map2 (map2 (+)) ?p ?n ! r ! c = ?p ! r ! c + ?n ! r ! c"
      using map2_add_nth[OF pn, of r c] lenp that by simp
    also have "?n ! r ! c = spec_minmax ?q (4 / 10) r c"
      using normalize_minmax_nth[of r ?q c salience_weight] lenq that
      by (simp add: salience_weight_def)
    finally show ?thesis
      using that Some by (simp add: paint_zeros_nth spec_contribution_def)
  qed
  show ?thesis using eq shape val by blast
qed

lemma frame_heat_map_fits:
  assumes "frame_heat_map h w fa = Inr m"
  shows "saliency_fits h w fa"
proof (cases "saliency fa")
  case None
  then show ?thesis by (simp add: saliency_fits_def)
next
  case (Some s)
  let ?p = "paint_faces (faces fa) (zeros h w)"
  let ?n = "normalize_minmax (map (map uint8_of) s) 0 salience_weight"
  have "same_shape ?p ?n"
    using assms Some by (simp add: frame_heat_map_def add_maps_def Let_def split: if_splits)
  then have "map length ?n = replicate h w"
    by (simp add: same_shape_def paint_zeros_lengths)
  then have "map length s = replicate h w"
    by (simp add: normalize_minmax_lengths comp_def)
  then show ?thesis using Some by (simp add: saliency_fits_def heat_shape_iff)
qed

lemma accumulate_pointwise:
  assumes "list_all (saliency_fits h w) frames" "heat_shape h w avg"
  shows "\<exists>m. accumulate h w frames avg = Inr m \<and> heat_shape h w m \<and>
             (\<forall>r<h. \<forall>c<w. m ! r ! c
                = avg ! r ! c + sum_list (map (\<lambda>fa. spec_contribution fa r c) frames))"
  using assms
proof (induction frames arbitrary: avg)
  case Nil
  then show ?case by simp
next
  case (Cons fa frames)
  from Cons.prems(1) have fits: "saliency_fits h w fa" and rest: "list_all (saliency_fits h w) frames"
    by simp_all
  from frame_heat_map_pointwise[OF fits] obtain m where
    m: "frame_heat_map h w fa = Inr m" "heat_shape h w m"
       "\<forall>r<h. \<forall>c<w. m ! r ! c = spec_contribution fa r c" by blast
  have am: "map length avg = map length m"
    using Cons.prems(2) m(2) by (simp add: heat_shape_iff)
  let ?avg = "map2 (map2 (+)) avg m"
  have shape: "heat_shape h w ?avg"
    using map2_add_lengths[OF am] Cons.prems(2) by (simp add: heat_shape_iff)
  from Cons.IH[OF rest shape] obtain res where
    res: "accumulate h w frames ?avg = Inr res" "heat_shape h w res"
         "\<forall>r<h. \<forall>c<w. res ! r ! c
            = ?avg ! r ! c + sum_list (map (\<lambda>fa. spec_contribution fa r c) frames)" by blast
  have step: "accumulate h w (fa # frames) avg = Inr res"
    using m(1) add_maps_Inr[OF am] res(1) by simp
  have val: "res ! r ! c = avg ! r ! c
               + sum_list (map (\<lambda>fa. spec_contribution fa r c) (fa # frames))"
    if "r < h" "c < w" for r c
  proof -
    have "?avg ! r ! c = avg ! r ! c + m ! r ! c"
      using map2_add_nth[OF am, of r c] heat_shape_nth[OF Cons.prems(2)] that by simp
    then show ?thesis using res(3) m(3) that by simp
  qed
  show ?case using step res(2) val by blast
qed

lemma accumulate_fits:
  assumes "accumulate h w frames avg = Inr m"
  shows "list_all (saliency_fits h w) frames"
  using assms
proof (induction frames arbitrary: avg)
  case Nil
  then show ?case by simp
next
  case (Cons fa frames)
  then show ?case
    by (auto split: sum.splits dest: frame_heat_map_fits)
qed

lemma aggregate_pointwise:
  assumes "list_all (saliency_fits h w) frames"
  shows "\<exists>hm. aggregate h w frames = Inr hm \<and> heat_shape h w hm \<and>
             (\<forall>r<h. \<forall>c<w. hm ! r ! c =
                (if frames = [] then 0
                 else sum_list (map (\<lambda>fa. spec_contribution fa r c) frames)
                        / real (length frames)))"
proof -
  from accumulate_pointwise[OF assms zeros_shape] obtain m where
    m: "accumulate h w frames (zeros h w) = Inr m" "heat_shape h w m"
       "\<forall>r<h. \<forall>c<w. m ! r ! c
          = zeros h w ! r ! c + sum_list (map (\<lambda>fa. spec_contribution fa r c) frames)" by blast
  have len: "length m = h" "\<forall>r<h. length (m ! r) = w"
    using heat_shape_nth[OF m(2)] by simp_all
  show ?thesis
  proof (cases "frames = []")
    case True
    then show ?thesis using m by (auto simp add: aggregate_def zeros_nth)
  next
    case False
    let ?hm = "map (map (\<lambda>v. v / real (length frames))) m"
    have eq: "aggregate h w frames = Inr ?hm"
      using False m(1) by (simp add: aggregate_def)
    have shape: "heat_shape h w ?hm"
      using m(2) by (simp add: heat_shape_iff comp_def)
    have val: "\<forall>r<h. \<forall>c<w. ?hm ! r ! c
                 = sum_list (map (\<lambda>fa. spec_contribution fa r c) frames) / real (length frames)"
      using m(3) len by (simp add: zeros_nth)
    show ?thesis using eq shape val False by simp
  qed
qed

lemma spec_contribution_bounds:
  assumes "saliency_fits h w fa" "r < h" "c < w"
  shows "0 \<le> spec_contribution fa r c \<and> spec_contribution fa r c \<le> 1"
proof (cases "saliency fa")
  case None
  then show ?thesis by (simp add: spec_contribution_def)
next
  case (Some s)
  let ?q = "map (map uint8_of) s"
  have "heat_shape h w s" using assms(1) Some by (simp add: saliency_fits_def)
  then have "r < length ?q" "c < length (?q ! r)"
    using heat_shape_nth[of h w s] assms(2,3) by simp_all
  from spec_minmax_bounds[OF this, of "4 / 10"]
  show ?thesis using Some by (simp add: spec_contribution_def)
qed

lemma sum_list_bounds:
  fixes f :: "'a \<Rightarrow> real"
  assumes "\<forall>x \<in> set xs. 0 \<le> f x \<and> f x \<le> 1"
  shows "0 \<le> sum_list (map f xs) \<and> sum_list (map f xs) \<le> real (length xs)"
  using assms by (induction xs) auto


lemma pointwise_list_all:
  assumes "heat_shape h w m" "\<forall>r<h. \<forall>c<w. P (m ! r ! c)"
  shows "list_all (list_all P) m"
  using assms heat_shape_nth[OF assms(1)] by (simp add: list_all_length)

lemma aggregate_unit_interval:
  assumes "aggregate h w frames = Inr hm"
  shows "heat_shape h w hm \<and> list_all (list_all (\<lambda>v. 0 \<le> v \<and> v \<le> 1)) hm"
proof -
  obtain m where m: "accumulate h w frames (zeros h w) = Inr m"
    using assms by (auto simp: aggregate_def split: sum.splits)
  have fits: "list_all (saliency_fits h w) frames"
    by (rule accumulate_fits[OF m])
  from aggregate_pointwise[OF fits] assms have shape: "heat_shape h w hm"
    and val: "\<forall>r<h. \<forall>c<w. hm ! r ! c =
                (if frames = [] then 0
                 else sum_list (map (\<lambda>fa. spec_contribution fa r c) frames)
                        / real (length frames))"
    by auto
  have "0 \<le> hm ! r ! c \<and> hm ! r ! c \<le> 1" if rc: "r < h" "c < w" for r c
  proof (cases "frames = []")
    case True
    then show ?thesis using val rc by simp
  next
    case False
    have "\<forall>fa \<in> set frames. 0 \<le> spec_contribution fa r c \<and> spec_contribution fa r c \<le> 1"
      using fits spec_contribution_bounds[OF _ rc] by (auto simp: list_all_iff)
    from sum_list_bounds[OF this] False show ?thesis
      using val rc by (simp add: divide_le_eq)
  qed
  then show ?thesis using shape pointwise_list_all[OF shape] by simp
qed



text \<open>The heat map of the stage has no negative entry, which is what the selector needs.\<close>

lemma aggregate_nonneg:
  assumes "aggregate h w frames = Inr hm"
  shows "heat_nonneg hm"
proof -
  have "list_all (list_all (\<lambda>v. 0 \<le> v \<and> v \<le> 1)) hm"
    using aggregate_unit_interval[OF assms] by simp
  then show ?thesis
    by (simp add: heat_nonneg_def list_all_iff)
qed



section \<open>Properties of the methods\<close>

subsection \<open>Traces\<close>

lemma attempts_append: "attempts (a @ b) = attempts a @ attempts b"
  by (induction a rule: attempts.induct) auto

lemma file_after_append: "file_after path (a @ b) s = file_after path b (file_after path a s)"
  by (induction path a s rule: file_after.induct) auto

lemma segment_filter_Some:
  "segment_filter s = Some f \<Longrightarrow> \<exists>a b c d. f = SegmentCrop a b c d"
  by (auto simp: segment_filter_def split: option.splits if_splits)

lemma process_segments_events:
  "process_segments w temp_dir i segs = (ev, files) \<Longrightarrow> e \<in> set ev \<Longrightarrow>
   \<exists>t a b c d p. e = Ffmpeg t (SegmentCrop a b c d) p"
proof (induction segs arbitrary: i ev files)
  case Nil
  then show ?case by simp
next
  case (Cons s segs)
  obtain ev' files' where rest: "process_segments w temp_dir (i + 1) segs = (ev', files')"
    by (cases "process_segments w temp_dir (i + 1) segs")
  have ih: "e \<in> set ev' \<Longrightarrow> \<exists>t a b c d p. e = Ffmpeg t (SegmentCrop a b c d) p"
    using Cons.IH[OF rest] .
  show ?case
    using Cons.prems rest ih
    by (auto simp: Let_def split: option.splits sum.splits if_splits dest!: segment_filter_Some)
qed

lemma process_segments_attempts:
  "process_segments w temp_dir i segs = (ev, files) \<Longrightarrow> attempts ev = []"
proof (induction segs arbitrary: i ev files)
  case Nil
  then show ?case by simp
next
  case (Cons s segs)
  obtain ev' files' where rest: "process_segments w temp_dir (i + 1) segs = (ev', files')"
    by (cases "process_segments w temp_dir (i + 1) segs")
  show ?case
    using Cons.prems rest Cons.IH[OF rest]
    by (auto simp: Let_def split: option.splits sum.splits if_splits)
qed

subsection \<open>Method 1\<close>

lemma method1_attempts: "attempts (fst (method1 w out)) = [Method1]"
  by (auto simp: method1_def Let_def attempts_append
           split: sum.splits crops.splits prod.splits
           dest: process_segments_attempts)

lemma method1_return:
  "snd (method1 w out) = ReturnTrue \<Longrightarrow>
   \<exists>pre p. fst (method1 w out) = pre @ [Ffmpeg out ConcatCopy p] \<and> returncode p = 0
     \<and> concat_run w = Inr p"
  by (auto simp: method1_def Let_def
           split: sum.splits crops.splits prod.splits if_splits)

lemma method1_targets:
  "Ffmpeg t f p \<in> set (fst (method1 w out)) \<Longrightarrow>
   (\<exists>a b c d. f = SegmentCrop a b c d) \<or> t = out"
  by (auto simp: method1_def Let_def
           split: sum.splits crops.splits prod.splits if_splits
           dest: process_segments_events)

subsection \<open>Method 1.5\<close>

lemma method1_5_attempts: "attempts (fst (method1_5 w out)) = [Method1_5]"
  by (auto simp: method1_5_def Let_def split: sum.splits prod.splits)

lemma method1_5_return:
  "snd (method1_5 w out) = ReturnTrue \<Longrightarrow>
   \<exists>pre f p d g. fst (method1_5 w out) = pre @ [Ffmpeg out f p, RmTree d g] \<and> returncode p = 0"
  by (auto simp: method1_5_def Let_def split: sum.splits prod.splits if_splits)

lemma method1_5_targets:
  "Ffmpeg t f p \<in> set (fst (method1_5 w out)) \<Longrightarrow> t = out"
  by (auto simp: method1_5_def Let_def split: sum.splits prod.splits if_splits)

subsection \<open>Method 2\<close>

lemma method2_attempts: "attempts (fst (method2 w out)) = [Method2]"
  by (auto simp: method2_def Let_def split: sum.splits prod.splits option.splits)

lemma method2_return:
  "snd (method2 w out) = ReturnTrue \<Longrightarrow>
   \<exists>pre f p d g. fst (method2 w out) = pre @ [Ffmpeg out f p, RmTree d g] \<and> returncode p = 0"
  by (auto simp: method2_def Let_def split: sum.splits prod.splits option.splits if_splits)

lemma method2_targets:
  "Ffmpeg t f p \<in> set (fst (method2 w out)) \<Longrightarrow> t = out"
  by (auto simp: method2_def Let_def split: sum.splits prod.splits option.splits if_splits)

subsection \<open>Method 3\<close>

lemma method3_attempts: "attempts (fst (method3 w out)) = [Method3]"
  by (auto simp: method3_def split: sum.splits)

lemma method3_cases:
  "(\<exists>e. thirds_run w = Inl e \<and> method3 w out = ([Enter Method3], Continue)) \<or>
   (\<exists>p. thirds_run w = Inr p \<and>
        method3 w out = ([Enter Method3, Ffmpeg out ThirdsCrop p],
                         if returncode p = 0 then ReturnTrue else Continue))"
  by (auto simp: method3_def split: sum.splits)

lemma method3_targets:
  "Ffmpeg t f p \<in> set (fst (method3 w out)) \<Longrightarrow> t = out"
  by (auto simp: method3_def split: sum.splits)

lemma best_pos_golden_left:
  "best_pos frames_dir width height =
     \<lparr>pos_x = max 0 ((width - height * (9 / 16)) * (618 / 1000)), pos_y = 0,
      pos_width = height * (9 / 16), pos_height = height, pos_desc = ''golden_left''\<rparr>"
  by (simp add: best_pos_def test_frames_def crop_positions_def Let_def)

lemma collect_no_raise:
  "\<forall>d. \<not> isl (t d) \<Longrightarrow> \<exists>cs. collect (map (\<lambda>(tf, pos). t (pos_desc pos)) tfs) = Inr cs"
proof (induction tfs)
  case Nil
  then show ?case by simp
next
  case (Cons a tfs)
  obtain tf pos where a: "a = (tf, pos)" by (cases a)
  from Cons.prems obtain c where c: "t (pos_desc pos) = Inr c"
    by (cases "t (pos_desc pos)") (auto simp: isl_def)
  from Cons obtain cs where "collect (map (\<lambda>(tf, pos). t (pos_desc pos)) tfs) = Inr cs" by blast
  then show ?case using a c by simp
qed

lemma method2_ignores_test_frames:
  assumes "\<forall>d. \<not> isl (test_crop w d)" "\<forall>d. \<not> isl (t' d)"
  shows "method2 (w\<lparr>test_crop := t'\<rparr>) out = method2 w out"
proof -
  have a: "\<exists>cs. collect (map (\<lambda>(tf, pos). test_crop w (pos_desc pos)) tfs) = Inr cs" for tfs
    using collect_no_raise[OF assms(1)] .
  have b: "\<exists>cs. collect (map (\<lambda>(tf, pos). t' (pos_desc pos)) tfs) = Inr cs" for tfs
    using collect_no_raise[OF assms(2)] .
  show ?thesis
  proof (cases "probe2 w")
    case (Inl e)
    then show ?thesis by (simp add: method2_def)
  next
    case (Inr pr)
    show ?thesis
    proof (cases pr)
      case None
      then show ?thesis using Inr by (simp add: method2_def)
    next
      case (Some dims)
      obtain width height duration where d: "dims = (width, height, duration)" by (cases dims)
      let ?tfs = "test_frames (path_join (dirname out) ''scene_analysis'') width height"
      from a[of ?tfs] b[of ?tfs] obtain cs cs' where
        "collect (map (\<lambda>(tf, pos). test_crop w (pos_desc pos)) ?tfs) = Inr cs"
        "collect (map (\<lambda>(tf, pos). t' (pos_desc pos)) ?tfs) = Inr cs'" by blast
      then show ?thesis using Inr Some d
        by (simp add: method2_def Let_def split: sum.splits)
    qed
  qed
qed

lemma method2_filter:
  assumes "Ffmpeg t f p \<in> set (fst (method2 w out))"
  shows "\<exists>width height duration. probe2 w = Inr (Some (width, height, duration)) \<and> t = out \<and>
           f = PositionCrop (height * (9 / 16)) height
                 (max 0 ((width - height * (9 / 16)) * (618 / 1000))) 0"
  using assms
  by (auto simp: method2_def Let_def best_pos_golden_left
           split: sum.splits prod.splits option.splits if_splits)

subsection \<open>A run without key frames\<close>






subsection \<open>The cascade\<close>

lemma file_after_removals:
  "\<forall>e \<in> set post. \<exists>d g. e = RmTree d g \<Longrightarrow> file_after path post s = s"
  by (induction post) auto

lemma file_after_last_run:
  assumes "tr = pre @ Ffmpeg path f p # post" "\<forall>e \<in> set post. \<exists>d g. e = RmTree d g"
    "leaves p = Some s"
  shows "file_after path tr s0 = s"
  using assms by (simp add: file_after_append file_after_removals)

lemma successful_run_prefixed:
  assumes "\<exists>pre f p post. ev = pre @ Ffmpeg out f p # post \<and> returncode p = 0 \<and>
             (\<forall>e \<in> set post. \<exists>d g. e = RmTree d g)"
  shows "\<exists>pre f p post. xs @ ev = pre @ Ffmpeg out f p # post \<and> returncode p = 0 \<and>
             (\<forall>e \<in> set post. \<exists>d g. e = RmTree d g)"
proof -
  from assms obtain pre f p post where
    e: "ev = pre @ Ffmpeg out f p # post" "returncode p = 0"
       "\<forall>e \<in> set post. \<exists>d g. e = RmTree d g" by blast
  have "xs @ ev = (xs @ pre) @ Ffmpeg out f p # post" using e(1) by simp
  then show ?thesis using e(2,3) by blast
qed

lemma method_return_run:
  "snd (method1 w out) = ReturnTrue \<Longrightarrow>
     \<exists>pre f p post. fst (method1 w out) = pre @ Ffmpeg out f p # post \<and> returncode p = 0 \<and>
       (\<forall>e \<in> set post. \<exists>d g. e = RmTree d g)"
  "snd (method1_5 w out) = ReturnTrue \<Longrightarrow>
     \<exists>pre f p post. fst (method1_5 w out) = pre @ Ffmpeg out f p # post \<and> returncode p = 0 \<and>
       (\<forall>e \<in> set post. \<exists>d g. e = RmTree d g)"
  "snd (method2 w out) = ReturnTrue \<Longrightarrow>
     \<exists>pre f p post. fst (method2 w out) = pre @ Ffmpeg out f p # post \<and> returncode p = 0 \<and>
       (\<forall>e \<in> set post. \<exists>d g. e = RmTree d g)"
  "snd (method3 w out) = ReturnTrue \<Longrightarrow>
     \<exists>pre f p post. fst (method3 w out) = pre @ Ffmpeg out f p # post \<and> returncode p = 0 \<and>
       (\<forall>e \<in> set post. \<exists>d g. e = RmTree d g)"
proof -
  show "\<exists>pre f p post. fst (method1 w out) = pre @ Ffmpeg out f p # post \<and> returncode p = 0 \<and>
       (\<forall>e \<in> set post. \<exists>d g. e = RmTree d g)" if "snd (method1 w out) = ReturnTrue"
  proof -
    from method1_return[OF that] obtain pre p where
      "fst (method1 w out) = pre @ Ffmpeg out ConcatCopy p # []" "returncode p = 0" by auto
    then show ?thesis by (metis empty_iff list.set(1))
  qed
  show "\<exists>pre f p post. fst (method1_5 w out) = pre @ Ffmpeg out f p # post \<and> returncode p = 0 \<and>
       (\<forall>e \<in> set post. \<exists>d g. e = RmTree d g)" if "snd (method1_5 w out) = ReturnTrue"
  proof -
    from method1_5_return[OF that] obtain pre f p d g where
      e: "fst (method1_5 w out) = pre @ Ffmpeg out f p # [RmTree d g]" "returncode p = 0" by auto
    have "\<forall>e \<in> set [RmTree d g]. \<exists>d g. e = RmTree d g" by simp
    with e show ?thesis by blast
  qed
  show "\<exists>pre f p post. fst (method2 w out) = pre @ Ffmpeg out f p # post \<and> returncode p = 0 \<and>
       (\<forall>e \<in> set post. \<exists>d g. e = RmTree d g)" if "snd (method2 w out) = ReturnTrue"
  proof -
    from method2_return[OF that] obtain pre f p d g where
      e: "fst (method2 w out) = pre @ Ffmpeg out f p # [RmTree d g]" "returncode p = 0" by auto
    have "\<forall>e \<in> set [RmTree d g]. \<exists>d g. e = RmTree d g" by simp
    with e show ?thesis by blast
  qed
  show "\<exists>pre f p post. fst (method3 w out) = pre @ Ffmpeg out f p # post \<and> returncode p = 0 \<and>
       (\<forall>e \<in> set post. \<exists>d g. e = RmTree d g)" if "snd (method3 w out) = ReturnTrue"
  proof -
    from method3_cases[of w out] that obtain p where
      e: "fst (method3 w out) = [Enter Method3] @ Ffmpeg out ThirdsCrop p # []" "returncode p = 0"
      by (auto split: if_splits)
    have "\<forall>e \<in> set ([] :: event list). \<exists>d g. e = RmTree d g" by simp
    with e show ?thesis by blast
  qed
qed

lemma resize_unfold:
  assumes "RESIZE_AVAILABLE w" "\<not> isl (makedirs_out w)"
  shows "resize_for_tiktok w out =
     (if snd (method1 w out) = ReturnTrue then (True, MakeOutDir # fst (method1 w out))
      else if SCENE_DETECT_AVAILABLE w \<and> snd (method1_5 w out) = ReturnTrue
        then (True, MakeOutDir # fst (method1 w out) @ fst (method1_5 w out))
      else if snd (method2 w out) = ReturnTrue
        then (True, MakeOutDir # fst (method1 w out)
                @ (if SCENE_DETECT_AVAILABLE w then fst (method1_5 w out) else [])
                @ fst (method2 w out))
      else (snd (method3 w out) = ReturnTrue,
            MakeOutDir # fst (method1 w out)
                @ (if SCENE_DETECT_AVAILABLE w then fst (method1_5 w out) else [])
                @ fst (method2 w out) @ fst (method3 w out)))"
proof -
  obtain u where u: "makedirs_out w = Inr u" using assms(2) by (cases "makedirs_out w") auto
  obtain e1 f1 where m1: "method1 w out = (e1, f1)" by (cases "method1 w out")
  obtain e2 f2 where m2: "method1_5 w out = (e2, f2)" by (cases "method1_5 w out")
  obtain e3 f3 where m3: "method2 w out = (e3, f3)" by (cases "method2 w out")
  obtain e4 f4 where m4: "method3 w out = (e4, f4)" by (cases "method3 w out")
  show ?thesis
    using assms(1) u
    by (cases f1; cases f2; cases f3; cases f4)
       (simp_all add: resize_for_tiktok_def m1 m2 m3 m4)
qed

lemma resize_guard:
  "\<not> RESIZE_AVAILABLE w \<or> isl (makedirs_out w) \<Longrightarrow> resize_for_tiktok w out = (False, [])"
  by (auto simp: resize_for_tiktok_def isl_def)

lemma attempts_cascade:
  "attempts (fst (method1 w out)) = [Method1]"
  "attempts (fst (method1_5 w out)) = [Method1_5]"
  "attempts (fst (method2 w out)) = [Method2]"
  "attempts (fst (method3 w out)) = [Method3]"
  by (rule method1_attempts method1_5_attempts method2_attempts method3_attempts)+

section \<open>Theorems\<close>

text \<open>
  C5. Whatever the number of detected scenes, when it is zero or above twenty the scene
  list used by the stage is the single interval from frame 0 to the total frame count,
  and otherwise it is the detected list itself.
\<close>

theorem scene_list_collapse:
  "(length scene_list = 0 \<or> length scene_list > 20 \<longrightarrow>
      effective_scene_list scene_list total_frames = [Scene 0 total_frames]) \<and>
   (\<not> (length scene_list = 0 \<or> length scene_list > 20) \<longrightarrow>
      effective_scene_list scene_list total_frames = scene_list)"
  by (simp add: effective_scene_list_def)

theorem scene_list_collapse_witness:
  "effective_scene_list [] 300 = [Scene 0 300] \<and>
   effective_scene_list (replicate 21 (Scene 0 10)) 300 = [Scene 0 300] \<and>
   effective_scene_list [Scene 0 120, Scene 120 300] 300 = [Scene 0 120, Scene 120 300]"
  using scene_list_collapse [of "[]" 300]
    scene_list_collapse [of "replicate 21 (Scene 0 10)" 300]
    scene_list_collapse [of "[Scene 0 120, Scene 120 300]" 300]
  by simp



text \<open>
  C2, as the code has it. For every heat map and every frame size, the window of the
  selector has vertical offset 0 and lies inside the frame. When a window of the frame's
  height fits (\<open>\<lfloor>9 * height / 16\<rfloor> \<le> width\<close>) the height is kept and the width is
  \<open>\<lfloor>9 * height / 16\<rfloor>\<close>; otherwise the width is kept and the height is
  \<open>\<lfloor>16 * width / 9\<rfloor>\<close>, which is below the frame's height. The ratio of width to height
  is 9/16 only up to this truncation to whole pixels.
\<close>

theorem crop_window_inside_frame:
  assumes "select_crop hm width height = W"
  shows "cw_y W = 0 \<and> cw_x W + cw_width W \<le> width \<and> cw_y W + cw_height W \<le> height \<and>
         (if (height * 9) div 16 \<le> width
          then cw_height W = height \<and> cw_width W = (height * 9) div 16 \<and>
               16 * cw_width W \<le> 9 * cw_height W \<and> 9 * cw_height W < 16 * cw_width W + 16
          else cw_width W = width \<and> cw_height W = (width * 16) div 9 \<and>
               cw_height W < height \<and>
               9 * cw_height W \<le> 16 * cw_width W \<and> 16 * cw_width W < 9 * cw_height W + 9)"
proof -
  have tw: "cw_width W = fst (target_dims width height)"
    and th: "cw_height W = snd (target_dims width height)"
    and y: "cw_y W = 0"
    using assms select_crop_fields(1,2,3) by auto
  have "cw_x W \<le> width - cw_width W"
    using select_crop_x_bound[of hm width height] assms by simp
  moreover have "cw_width W \<le> width"
    unfolding tw by (rule target_width_le)
  ultimately have inside: "cw_x W + cw_width W \<le> width" by simp
  have h: "cw_height W \<le> height"
    unfolding th by (rule target_height_le)
  have dims: "if (height * 9) div 16 \<le> width
          then cw_height W = height \<and> cw_width W = (height * 9) div 16 \<and>
               16 * cw_width W \<le> 9 * cw_height W \<and> 9 * cw_height W < 16 * cw_width W + 16
          else cw_width W = width \<and> cw_height W = (width * 16) div 9 \<and>
               cw_height W < height \<and>
               9 * cw_height W \<le> 16 * cw_width W \<and> 16 * cw_width W < 9 * cw_height W + 9"
    unfolding tw th by (simp add: target_dims_def Let_def) arith
  show ?thesis using y inside h dims by simp
qed

theorem crop_window_inside_frame_witness:
  "select_crop [[0, 0, 0, 1, 0, 0, 0, 0], [0, 0, 0, 0, 0, 1, 0, 0]] 8 2
     = \<lparr>cw_x = 3, cw_y = 0, cw_width = 1, cw_height = 2\<rparr> \<and>
   (3::nat) + 1 \<le> 8 \<and> (2 * 9) div 16 \<le> (8::nat) \<and> (16::nat) * 1 \<le> 9 * 2"
proof -
  have s: "select_crop [[0, 0, 0, 1, 0, 0, 0, 0], [0, 0, 0, 0, 0, 1, 0, 0]] 8 2
             = \<lparr>cw_x = 3, cw_y = 0, cw_width = 1, cw_height = 2\<rparr>" by code_simp
  from crop_window_inside_frame[OF s] s show ?thesis by simp
qed

text \<open>
  C2 as stated fails: for a frame of 1920 by 1080 pixels the window is 607 by 1080, and
  607/1080 differs from 9/16 by 1/2160.
\<close>

theorem crop_window_ratio_counterexample:
  "cw_width (select_crop (zeros 1080 1920) 1920 1080) = 607 \<and>
   cw_height (select_crop (zeros 1080 1920) 1920 1080) = 1080 \<and>
   real (cw_width (select_crop (zeros 1080 1920) 1920 1080))
     / real (cw_height (select_crop (zeros 1080 1920) 1920 1080)) \<noteq> 9 / 16 \<and>
   \<bar>real (cw_width (select_crop (zeros 1080 1920) 1920 1080))
     / real (cw_height (select_crop (zeros 1080 1920) 1920 1080)) - 9 / 16\<bar> = 1 / 2160"
  by (simp add: select_crop_fields target_dims_def)





text \<open>
  C6, as the code has it. Method 2 always takes the position named \<open>golden_left\<close>:
  its height is the height of the frame, its width is \<open>height * 9/16\<close>, its vertical
  offset is 0 and its horizontal offset is \<open>(width - target_width) * 0.618\<close> where this
  is not negative and 0 otherwise (the \<open>max(0, \<dots>)\<close> of line 688). Every transcoder run
  of the method has this crop and the output path as its target, whatever the test frames
  hold: a world that differs only in the content of the test frames gives the same run.
\<close>

theorem positional_crop_golden_left:
  "pos_desc (best_pos frames_dir width height) = ''golden_left'' \<and>
   pos_x (best_pos frames_dir width height)
     = max 0 ((width - height * (9 / 16)) * (618 / 1000)) \<and>
   pos_y (best_pos frames_dir width height) = 0 \<and>
   pos_width (best_pos frames_dir width height) = height * (9 / 16) \<and>
   pos_height (best_pos frames_dir width height) = height \<and>
   (Ffmpeg t f p \<in> set (fst (method2 w out)) \<longrightarrow>
      (\<exists>wd ht duration. probe2 w = Inr (Some (wd, ht, duration)) \<and> t = out \<and>
         f = PositionCrop (ht * (9 / 16)) ht (max 0 ((wd - ht * (9 / 16)) * (618 / 1000))) 0)) \<and>
   ((\<forall>d. \<not> isl (test_crop w d)) \<and> (\<forall>d. \<not> isl (t' d)) \<longrightarrow>
      method2 (w\<lparr>test_crop := t'\<rparr>) out = method2 w out)"
  using method2_filter[of t f p w out] method2_ignores_test_frames[of w t' out]
  by (simp add: best_pos_golden_left)


theorem positional_crop_golden_left_witness:
  "Ffmpeg ''clips/a.mp4'' (PositionCrop (1125 / 2) 1000 (2163 / 8) 0)
       \<lparr>returncode = 0, leaves = Some Complete\<rparr>
     \<in> set (fst (method2 (failing_world\<lparr>probe2 := Inr (Some (1000, 1000, 12)),
                   extract_frames := Inr [''frame_0001.jpg''],
                   advanced_run := Inr \<lparr>returncode = 0, leaves = Some Complete\<rparr>\<rparr>)
                 ''clips/a.mp4'')) \<and>
   (1125 / 2 :: real) = 1000 * (9 / 16) \<and>
   (2163 / 8 :: real) = max 0 ((1000 - 1000 * (9 / 16)) * (618 / 1000)) \<and>
   method2 (failing_world\<lparr>probe2 := Inr (Some (1000, 1000, 12)),
                   extract_frames := Inr [''frame_0001.jpg''],
                   advanced_run := Inr \<lparr>returncode = 0, leaves = Some Complete\<rparr>,
                   test_crop := (\<lambda>d. Inr 7)\<rparr>) ''clips/a.mp4''
     = method2 (failing_world\<lparr>probe2 := Inr (Some (1000, 1000, 12)),
                   extract_frames := Inr [''frame_0001.jpg''],
                   advanced_run := Inr \<lparr>returncode = 0, leaves = Some Complete\<rparr>\<rparr>)
         ''clips/a.mp4''"
proof -
  let ?W = "failing_world\<lparr>probe2 := Inr (Some (1000, 1000, 12)),
                   extract_frames := Inr [''frame_0001.jpg''],
                   advanced_run := Inr \<lparr>returncode = 0, leaves = Some Complete\<rparr>\<rparr>"
  let ?p = "\<lparr>returncode = 0, leaves = Some Complete\<rparr>"
  have run: "method2 ?W ''clips/a.mp4'' =
      ([Enter Method2, MakeTempDir ''clips/scene_analysis'',
        Ffmpeg ''clips/a.mp4'' (PositionCrop (1125 / 2) 1000 (2163 / 8) 0) ?p,
        RmTree ''clips/scene_analysis'' True], ReturnTrue)"
    by (simp add: failing_world_def method2_def test_frames_def crop_positions_def
          best_pos_golden_left Let_def path_join_def dirname_def)
  have mem: "Ffmpeg ''clips/a.mp4'' (PositionCrop (1125 / 2) 1000 (2163 / 8) 0) ?p
               \<in> set (fst (method2 ?W ''clips/a.mp4''))"
    by (simp add: run)
  have quiet: "(\<forall>d. \<not> isl (test_crop ?W d)) \<and> (\<forall>d. \<not> isl ((\<lambda>d. Inr 7 :: exn + nat) d))"
    by (simp add: failing_world_def)
  from positional_crop_golden_left[of "''clips/scene_analysis''" 1000 1000
         "''clips/a.mp4''" "PositionCrop (1125 / 2) 1000 (2163 / 8) 0" ?p ?W "''clips/a.mp4''"
         "\<lambda>d. Inr 7"] mem quiet
  show ?thesis by simp
qed

text \<open>
  C6 as stated fails for a frame narrower than the target: at 720 by 1920 the target
  width is 1080 and the offset is 0, not \<open>(720 - 1080) * 0.618\<close>.
\<close>

theorem positional_crop_counterexample:
  "pos_x (best_pos ''clips/scene_analysis'' 720 1920) = 0 \<and>
   (720 - 1920 * (9 / 16)) * (618 / 1000) = (- 5562 / 25 :: real) \<and>
   pos_x (best_pos ''clips/scene_analysis'' 720 1920) \<noteq> (720 - 1920 * (9 / 16)) * (618 / 1000)"
  by (simp add: best_pos_golden_left)




text \<open>
  C4, as the code has it. Without the resize of ClipsAI, or when the directory of the
  output cannot be made, the function returns \<open>False\<close> and enters no method. Otherwise
  it enters method 1, then method 1.5 when PySceneDetect and OpenCV are there, then
  method 2, then method 3, in this order, stops at the first method that returns
  \<open>True\<close>, and returns \<open>False\<close> exactly when none did. Method 1 goes on to the next
  method when a call of it raises or no segment survives, method 2 when its transcoder
  run raises or exits with another code than 0, and method 3 succeeds exactly when its
  run exits with 0.
\<close>

theorem cascade_falls_through_in_order:
  assumes "resize_for_tiktok w out = (r, tr)"
  shows "(\<not> RESIZE_AVAILABLE w \<or> isl (makedirs_out w) \<longrightarrow> \<not> r \<and> attempts tr = []) \<and>
    (RESIZE_AVAILABLE w \<and> \<not> isl (makedirs_out w) \<longrightarrow>
       attempts tr =
         Method1 #
           (if snd (method1 w out) = ReturnTrue then []
            else (if SCENE_DETECT_AVAILABLE w then [Method1_5] else []) @
              (if SCENE_DETECT_AVAILABLE w \<and> snd (method1_5 w out) = ReturnTrue then []
               else Method2 # (if snd (method2 w out) = ReturnTrue then [] else [Method3]))) \<and>
       r = (snd (method1 w out) = ReturnTrue \<or>
            (SCENE_DETECT_AVAILABLE w \<and> snd (method1_5 w out) = ReturnTrue) \<or>
            snd (method2 w out) = ReturnTrue \<or>
            snd (method3 w out) = ReturnTrue)) \<and>
    (isl (probe1 w) \<or> isl (clipsai_resize w) \<longrightarrow> snd (method1 w out) = Continue) \<and>
    (\<forall>segs. clipsai_resize w = Inr (Crops segs) \<and>
        snd (process_segments w (path_join (dirname out) ''temp_resize'') 0 segs) = [] \<longrightarrow>
        snd (method1 w out) = Continue) \<and>
    (isl (advanced_run w) \<or> (\<exists>p. advanced_run w = Inr p \<and> returncode p \<noteq> 0) \<longrightarrow>
        snd (method2 w out) = Continue) \<and>
    (snd (method3 w out) = ReturnTrue \<longleftrightarrow> (\<exists>p. thirds_run w = Inr p \<and> returncode p = 0))"
proof -
  have guard: "\<not> RESIZE_AVAILABLE w \<or> isl (makedirs_out w) \<longrightarrow> \<not> r \<and> attempts tr = []"
    using assms resize_guard[of w out] by auto
  have order: "RESIZE_AVAILABLE w \<and> \<not> isl (makedirs_out w) \<longrightarrow>
       attempts tr =
         Method1 #
           (if snd (method1 w out) = ReturnTrue then []
            else (if SCENE_DETECT_AVAILABLE w then [Method1_5] else []) @
              (if SCENE_DETECT_AVAILABLE w \<and> snd (method1_5 w out) = ReturnTrue then []
               else Method2 # (if snd (method2 w out) = ReturnTrue then [] else [Method3]))) \<and>
       r = (snd (method1 w out) = ReturnTrue \<or>
            (SCENE_DETECT_AVAILABLE w \<and> snd (method1_5 w out) = ReturnTrue) \<or>
            snd (method2 w out) = ReturnTrue \<or>
            snd (method3 w out) = ReturnTrue)"
  proof
    assume a: "RESIZE_AVAILABLE w \<and> \<not> isl (makedirs_out w)"
    from resize_unfold[of w out] a assms show "attempts tr =
         Method1 #
           (if snd (method1 w out) = ReturnTrue then []
            else (if SCENE_DETECT_AVAILABLE w then [Method1_5] else []) @
              (if SCENE_DETECT_AVAILABLE w \<and> snd (method1_5 w out) = ReturnTrue then []
               else Method2 # (if snd (method2 w out) = ReturnTrue then [] else [Method3]))) \<and>
       r = (snd (method1 w out) = ReturnTrue \<or>
            (SCENE_DETECT_AVAILABLE w \<and> snd (method1_5 w out) = ReturnTrue) \<or>
            snd (method2 w out) = ReturnTrue \<or>
            snd (method3 w out) = ReturnTrue)"
      by (auto simp: attempts_append attempts_cascade split: if_splits)
  qed
  have s1a: "isl (probe1 w) \<or> isl (clipsai_resize w) \<longrightarrow> snd (method1 w out) = Continue"
    by (auto simp: method1_def isl_def split: sum.splits)
  have s1b: "\<forall>segs. clipsai_resize w = Inr (Crops segs) \<and>
        snd (process_segments w (path_join (dirname out) ''temp_resize'') 0 segs) = [] \<longrightarrow>
        snd (method1 w out) = Continue"
    by (auto simp: method1_def Let_def split: sum.splits prod.splits)
  have s3: "isl (advanced_run w) \<or> (\<exists>p. advanced_run w = Inr p \<and> returncode p \<noteq> 0) \<longrightarrow>
        snd (method2 w out) = Continue"
    by (auto simp: method2_def Let_def isl_def split: sum.splits prod.splits option.splits)
  have s4: "snd (method3 w out) = ReturnTrue \<longleftrightarrow> (\<exists>p. thirds_run w = Inr p \<and> returncode p = 0)"
    by (auto simp: method3_def split: sum.splits)
  show ?thesis using guard order s1a s1b s3 s4 by blast
qed

theorem cascade_falls_through_in_order_witness:
  "resize_for_tiktok
     (failing_world\<lparr>thirds_run := Inr \<lparr>returncode = 0, leaves = Some Complete\<rparr>\<rparr>) ''clips/a.mp4''
     = (True, [MakeOutDir, Enter Method1, Enter Method1_5, Enter Method2, Enter Method3,
               Ffmpeg ''clips/a.mp4'' ThirdsCrop \<lparr>returncode = 0, leaves = Some Complete\<rparr>]) \<and>
   RESIZE_AVAILABLE (failing_world\<lparr>thirds_run := Inr \<lparr>returncode = 0, leaves = Some Complete\<rparr>\<rparr>) \<and>
   \<not> isl (makedirs_out (failing_world\<lparr>thirds_run := Inr \<lparr>returncode = 0, leaves = Some Complete\<rparr>\<rparr>)) \<and>
   isl (clipsai_resize (failing_world\<lparr>thirds_run := Inr \<lparr>returncode = 0, leaves = Some Complete\<rparr>\<rparr>)) \<and>
   isl (advanced_run (failing_world\<lparr>thirds_run := Inr \<lparr>returncode = 0, leaves = Some Complete\<rparr>\<rparr>)) \<and>
   snd (method1 (failing_world\<lparr>thirds_run := Inr \<lparr>returncode = 0, leaves = Some Complete\<rparr>\<rparr>)
          ''clips/a.mp4'') = Continue \<and>
   snd (method3 (failing_world\<lparr>thirds_run := Inr \<lparr>returncode = 0, leaves = Some Complete\<rparr>\<rparr>)
          ''clips/a.mp4'') = ReturnTrue"
proof -
  let ?W = "failing_world\<lparr>thirds_run := Inr \<lparr>returncode = 0, leaves = Some Complete\<rparr>\<rparr>"
  have run: "resize_for_tiktok ?W ''clips/a.mp4''
     = (True, [MakeOutDir, Enter Method1, Enter Method1_5, Enter Method2, Enter Method3,
               Ffmpeg ''clips/a.mp4'' ThirdsCrop \<lparr>returncode = 0, leaves = Some Complete\<rparr>])"
    unfolding failing_world_def by code_simp
  have pre: "RESIZE_AVAILABLE ?W" "\<not> isl (makedirs_out ?W)" "isl (clipsai_resize ?W)"
    "isl (advanced_run ?W)"
    "\<exists>p. thirds_run ?W = Inr p \<and> returncode p = 0"
    by (simp_all add: failing_world_def)
  from cascade_falls_through_in_order[OF run] pre
  have "snd (method1 ?W ''clips/a.mp4'') = Continue"
    "snd (method3 ?W ''clips/a.mp4'') = ReturnTrue" by blast+
  then show ?thesis using run pre by simp
qed

text \<open>
  C4 as stated fails. Without the resize of ClipsAI the cascade reports failure although
  method 3 would succeed and no method failed; and without PySceneDetect a failure of
  method 1 is followed by method 2, method 1.5 is not attempted.
\<close>

theorem cascade_guard_counterexample:
  "resize_for_tiktok
     (failing_world\<lparr>RESIZE_AVAILABLE := False,
        thirds_run := Inr \<lparr>returncode = 0, leaves = Some Complete\<rparr>\<rparr>) ''clips/a.mp4''
     = (False, []) \<and>
   method3
     (failing_world\<lparr>RESIZE_AVAILABLE := False,
        thirds_run := Inr \<lparr>returncode = 0, leaves = Some Complete\<rparr>\<rparr>) ''clips/a.mp4''
     = ([Enter Method3, Ffmpeg ''clips/a.mp4'' ThirdsCrop \<lparr>returncode = 0, leaves = Some Complete\<rparr>],
        ReturnTrue) \<and>
   clipsai_resize (failing_world\<lparr>SCENE_DETECT_AVAILABLE := False\<rparr>) = Inl ExternalError \<and>
   attempts (snd (resize_for_tiktok (failing_world\<lparr>SCENE_DETECT_AVAILABLE := False\<rparr>)
                    ''clips/a.mp4''))
     = [Method1, Method2, Method3]"
  unfolding failing_world_def by code_simp

text \<open>
  C8, as the code has it. Every transcoder run that produces the final video has the
  final output path itself as its target: there is no temporary name, no step that
  publishes the file and none that removes it. When the function returns \<open>True\<close> the
  last run on the output path exited with 0, only removals follow it, and the path holds
  what that run left. When all methods fail and the run of method 3 ended, the path holds
  what that failed run left there.
\<close>

theorem output_written_in_place:
  assumes "resize_for_tiktok w out = (r, tr)"
  shows "(\<forall>t f p. Ffmpeg t f p \<in> set tr \<longrightarrow> (\<exists>a b c d. f = SegmentCrop a b c d) \<or> t = out) \<and>
    (r \<longrightarrow> (\<exists>pre f p post. tr = pre @ Ffmpeg out f p # post \<and> returncode p = 0 \<and>
               (\<forall>e \<in> set post. \<exists>d g. e = RmTree d g) \<and>
               (\<forall>s. leaves p = Some s \<longrightarrow> file_after out tr s0 = s))) \<and>
    (\<not> r \<and> RESIZE_AVAILABLE w \<and> \<not> isl (makedirs_out w) \<longrightarrow>
       (\<forall>p. thirds_run w = Inr p \<longrightarrow>
          returncode p \<noteq> 0 \<and> (\<exists>pre. tr = pre @ [Ffmpeg out ThirdsCrop p]) \<and>
          (\<forall>s. leaves p = Some s \<longrightarrow> file_after out tr s0 = s)))"
proof (cases "RESIZE_AVAILABLE w \<and> \<not> isl (makedirs_out w)")
  case False
  then have "resize_for_tiktok w out = (False, [])"
    using resize_guard[of w out] by blast
  with assms False show ?thesis by auto
next
  case True
  note unf = resize_unfold[of w out, OF conjunct1[OF True] conjunct2[OF True]]
  let ?e1 = "fst (method1 w out)" and ?e2 = "fst (method1_5 w out)"
  let ?e3 = "fst (method2 w out)" and ?e4 = "fst (method3 w out)"
  have sub: "set tr \<subseteq> {MakeOutDir} \<union> set ?e1 \<union> set ?e2 \<union> set ?e3 \<union> set ?e4"
    using assms unf by (auto split: if_splits)
  have targets: "\<forall>t f p. Ffmpeg t f p \<in> set tr \<longrightarrow> (\<exists>a b c d. f = SegmentCrop a b c d) \<or> t = out"
  proof (intro allI impI)
    fix t f p assume "Ffmpeg t f p \<in> set tr"
    with sub have "Ffmpeg t f p \<in> set ?e1 \<or> Ffmpeg t f p \<in> set ?e2 \<or>
                   Ffmpeg t f p \<in> set ?e3 \<or> Ffmpeg t f p \<in> set ?e4" by auto
    then show "(\<exists>a b c d. f = SegmentCrop a b c d) \<or> t = out"
      using method1_targets[of t f p w out] method1_5_targets[of t f p w out]
        method2_targets[of t f p w out] method3_targets[of t f p w out] by fastforce
  qed
  have success: "\<exists>pre f p post. tr = pre @ Ffmpeg out f p # post \<and> returncode p = 0 \<and>
               (\<forall>e \<in> set post. \<exists>d g. e = RmTree d g) \<and>
               (\<forall>s. leaves p = Some s \<longrightarrow> file_after out tr s0 = s)" if r
  proof -
    have "\<exists>pre f p post. tr = pre @ Ffmpeg out f p # post \<and> returncode p = 0 \<and>
               (\<forall>e \<in> set post. \<exists>d g. e = RmTree d g)"
    proof (cases "snd (method1 w out) = ReturnTrue")
      case True
      then have tr: "tr = [MakeOutDir] @ ?e1" using assms unf by simp
      show ?thesis
        unfolding tr by (rule successful_run_prefixed[OF method_return_run(1)[OF True]])
    next
      case n1: False
      show ?thesis
      proof (cases "SCENE_DETECT_AVAILABLE w \<and> snd (method1_5 w out) = ReturnTrue")
        case True
        then have tr: "tr = (MakeOutDir # ?e1) @ ?e2" using assms unf n1 by simp
        show ?thesis
          unfolding tr
          by (rule successful_run_prefixed[OF method_return_run(2)[OF conjunct2[OF True]]])
      next
        case n2: False
        show ?thesis
        proof (cases "snd (method2 w out) = ReturnTrue")
          case True
          then have tr: "tr = (MakeOutDir # ?e1 @ (if SCENE_DETECT_AVAILABLE w then ?e2 else []))
                             @ ?e3"
            using assms unf n1 n2 by simp
          show ?thesis
            unfolding tr by (rule successful_run_prefixed[OF method_return_run(3)[OF True]])
        next
          case n3: False
          then have tr: "tr = (MakeOutDir # ?e1 @ (if SCENE_DETECT_AVAILABLE w then ?e2 else [])
                            @ ?e3) @ ?e4"
            and r4: "snd (method3 w out) = ReturnTrue"
            using assms unf n1 n2 that by simp_all
          show ?thesis
            unfolding tr by (rule successful_run_prefixed[OF method_return_run(4)[OF r4]])
        qed
      qed
    qed
    then obtain pre f p post where
      e: "tr = pre @ Ffmpeg out f p # post" "returncode p = 0"
         "\<forall>e \<in> set post. \<exists>d g. e = RmTree d g" by blast
    have "\<forall>s. leaves p = Some s \<longrightarrow> file_after out tr s0 = s"
      using file_after_last_run[OF e(1) e(3)] by blast
    with e show ?thesis by blast
  qed
  have failure: "returncode p \<noteq> 0 \<and> (\<exists>pre. tr = pre @ [Ffmpeg out ThirdsCrop p]) \<and>
          (\<forall>s. leaves p = Some s \<longrightarrow> file_after out tr s0 = s)"
    if nr: "\<not> r" and p: "thirds_run w = Inr p" for p
  proof -
    have m3: "method3 w out = ([Enter Method3, Ffmpeg out ThirdsCrop p],
                 if returncode p = 0 then ReturnTrue else Continue)"
      using method3_cases[of w out] p by auto
    have all: "snd (method1 w out) \<noteq> ReturnTrue"
      "\<not> (SCENE_DETECT_AVAILABLE w \<and> snd (method1_5 w out) = ReturnTrue)"
      "snd (method2 w out) \<noteq> ReturnTrue" "snd (method3 w out) \<noteq> ReturnTrue"
      using assms unf nr by (auto split: if_splits)
    have rc: "returncode p \<noteq> 0" using all(4) m3 by auto
    have tr: "tr = (MakeOutDir # ?e1 @ (if SCENE_DETECT_AVAILABLE w then ?e2 else []) @ ?e3
                      @ [Enter Method3]) @ Ffmpeg out ThirdsCrop p # []"
      using assms unf all m3 by simp
    have "\<forall>s. leaves p = Some s \<longrightarrow> file_after out tr s0 = s"
      using file_after_last_run[OF tr] by simp
    moreover have "\<exists>pre. tr = pre @ [Ffmpeg out ThirdsCrop p]" using tr by blast
    ultimately show ?thesis using rc by blast
  qed
  show ?thesis using targets success failure by blast
qed

theorem output_written_in_place_witness:
  "resize_for_tiktok
     (failing_world\<lparr>thirds_run := Inr \<lparr>returncode = 0, leaves = Some Complete\<rparr>\<rparr>) ''clips/a.mp4''
     = (True, [MakeOutDir, Enter Method1, Enter Method1_5, Enter Method2, Enter Method3,
               Ffmpeg ''clips/a.mp4'' ThirdsCrop \<lparr>returncode = 0, leaves = Some Complete\<rparr>]) \<and>
   (\<exists>pre f p post.
      [MakeOutDir, Enter Method1, Enter Method1_5, Enter Method2, Enter Method3,
       Ffmpeg ''clips/a.mp4'' ThirdsCrop \<lparr>returncode = 0, leaves = Some Complete\<rparr>]
        = pre @ Ffmpeg ''clips/a.mp4'' f p # post \<and> returncode p = 0 \<and>
      (\<forall>s. leaves p = Some s \<longrightarrow>
         file_after ''clips/a.mp4''
           [MakeOutDir, Enter Method1, Enter Method1_5, Enter Method2, Enter Method3,
            Ffmpeg ''clips/a.mp4'' ThirdsCrop \<lparr>returncode = 0, leaves = Some Complete\<rparr>]
           Absent = s)) \<and>
   file_after ''clips/a.mp4''
     [MakeOutDir, Enter Method1, Enter Method1_5, Enter Method2, Enter Method3,
      Ffmpeg ''clips/a.mp4'' ThirdsCrop \<lparr>returncode = 0, leaves = Some Complete\<rparr>]
     Absent = Complete"
proof -
  let ?W = "failing_world\<lparr>thirds_run := Inr \<lparr>returncode = 0, leaves = Some Complete\<rparr>\<rparr>"
  have run: "resize_for_tiktok ?W ''clips/a.mp4''
     = (True, [MakeOutDir, Enter Method1, Enter Method1_5, Enter Method2, Enter Method3,
               Ffmpeg ''clips/a.mp4'' ThirdsCrop \<lparr>returncode = 0, leaves = Some Complete\<rparr>])"
    unfolding failing_world_def by code_simp
  have fa: "file_after ''clips/a.mp4''
     [MakeOutDir, Enter Method1, Enter Method1_5, Enter Method2, Enter Method3,
      Ffmpeg ''clips/a.mp4'' ThirdsCrop \<lparr>returncode = 0, leaves = Some Complete\<rparr>]
     Absent = Complete" by simp
  from output_written_in_place[OF run, of Absent]
  have "\<exists>pre f p post.
      [MakeOutDir, Enter Method1, Enter Method1_5, Enter Method2, Enter Method3,
       Ffmpeg ''clips/a.mp4'' ThirdsCrop \<lparr>returncode = 0, leaves = Some Complete\<rparr>]
        = pre @ Ffmpeg ''clips/a.mp4'' f p # post \<and> returncode p = 0 \<and>
      (\<forall>s. leaves p = Some s \<longrightarrow>
         file_after ''clips/a.mp4''
           [MakeOutDir, Enter Method1, Enter Method1_5, Enter Method2, Enter Method3,
            Ffmpeg ''clips/a.mp4'' ThirdsCrop \<lparr>returncode = 0, leaves = Some Complete\<rparr>]
           Absent = s)"
    by blast
  then show ?thesis using run fa by blast
qed

text \<open>
  C8 as stated fails: when every method fails and the run of method 3 leaves a partial
  file, the function returns \<open>False\<close> and the partial file is at the output path.
\<close>

theorem partial_output_counterexample:
  "resize_for_tiktok
     (failing_world\<lparr>thirds_run := Inr \<lparr>returncode = 1, leaves = Some Partial\<rparr>\<rparr>) ''clips/a.mp4''
     = (False, [MakeOutDir, Enter Method1, Enter Method1_5, Enter Method2, Enter Method3,
               Ffmpeg ''clips/a.mp4'' ThirdsCrop \<lparr>returncode = 1, leaves = Some Partial\<rparr>]) \<and>
   file_after ''clips/a.mp4''
     (snd (resize_for_tiktok
        (failing_world\<lparr>thirds_run := Inr \<lparr>returncode = 1, leaves = Some Partial\<rparr>\<rparr>)
        ''clips/a.mp4'')) Absent = Partial"
  unfolding failing_world_def by code_simp

text \<open>
  C9 does not hold of the code. Method 1 never removes \<open>temp_resize\<close>: after a run in
  which it succeeds the directory is still there. Methods 1.5 and 2 remove their
  directories only after the transcoder run: when the analysis of a key frame raises, and
  when no frame file is found, both directories are left behind.
\<close>

theorem temp_dirs_left_behind:
  "resize_for_tiktok
     (failing_world\<lparr>
        clipsai_resize := Inr (Crops [\<lparr>start_time = Some 0, end_time = Some 5,
          seg_x = Some (1 / 4), seg_y = Some 0, seg_width = Some (1 / 2), seg_height = Some 1\<rparr>]),
        segment_run := (\<lambda>i. Inr \<lparr>returncode = 0, leaves = Some Complete\<rparr>),
        concat_run := Inr \<lparr>returncode = 0, leaves = Some Complete\<rparr>\<rparr>) ''clips/a.mp4''
     = (True, [MakeOutDir, Enter Method1, MakeTempDir ''clips/temp_resize'',
               Ffmpeg ''clips/temp_resize/segment_000.mp4'' (SegmentCrop (1 / 2) 1 (1 / 4) 0)
                 \<lparr>returncode = 0, leaves = Some Complete\<rparr>,
               Ffmpeg ''clips/a.mp4'' ConcatCopy \<lparr>returncode = 0, leaves = Some Complete\<rparr>]) \<and>
   live_dirs (snd (resize_for_tiktok
     (failing_world\<lparr>
        clipsai_resize := Inr (Crops [\<lparr>start_time = Some 0, end_time = Some 5,
          seg_x = Some (1 / 4), seg_y = Some 0, seg_width = Some (1 / 2), seg_height = Some 1\<rparr>]),
        segment_run := (\<lambda>i. Inr \<lparr>returncode = 0, leaves = Some Complete\<rparr>),
        concat_run := Inr \<lparr>returncode = 0, leaves = Some Complete\<rparr>\<rparr>) ''clips/a.mp4'')) []
     = [''clips/temp_resize''] \<and>
   live_dirs (snd (resize_for_tiktok
     (failing_world\<lparr>
        detect_scenes := Inr [Scene 0 50],
        read_frame := (\<lambda>n. Some (Inl ExternalError)),
        probe2 := Inr (Some (1920, 1080, 12))\<rparr>) ''clips/a.mp4'')) []
     = [''clips/scene_analysis'', ''/tmp/scene_analysis_0'']"
  unfolding failing_world_def by code_simp

end
